theory Spec2Isabelle
  imports Main "HOL-Library.Sublist" "HOL-Library.Multiset"
begin

section \<open>JavaScript strings and arrays\<close>

text \<open>
  A JavaScript string is modelled as a \<^typ>\<open>string\<close>: the list of its code units, each
  below 256. An array of strings is a list. The built-ins the query generator calls are
  written out below with the behaviour they have on strings.
\<close>

text \<open>\<^verbatim>\<open>s.split(sep)\<close> for a one-character separator: the fields between the separators;
  the result always has at least one field.\<close>

fun split :: "char \<Rightarrow> string \<Rightarrow> string list" where
  "split sep [] = [[]]"
| "split sep (c # cs) =
     (if c = sep then [] # split sep cs
      else (case split sep cs of
              [] \<Rightarrow> [[c]]
            | field # fields \<Rightarrow> (c # field) # fields))"

text \<open>\<^verbatim>\<open>xs.join(sep)\<close> on an array of strings.\<close>

fun join :: "string \<Rightarrow> string list \<Rightarrow> string" where
  "join sep [] = []"
| "join sep [x] = x"
| "join sep (x # y # ys) = x @ sep @ join sep (y # ys)"

text \<open>\<^verbatim>\<open>columnName.includes('.')\<close>.\<close>

definition includes_dot :: "string \<Rightarrow> bool" where
  "includes_dot columnName = (CHR ''.'' \<in> set columnName)"

text \<open>The ten decimal digits, the class \<^verbatim>\<open>\d\<close> of a regular expression.\<close>

definition is_digit :: "char \<Rightarrow> bool" where
  "is_digit c = (c \<in> set ''0123456789'')"

section \<open>The query generator (bigquery.js)\<close>

text \<open>
  The predicate passed to \<^verbatim>\<open>columnNames.filter\<close>. \<^verbatim>\<open>columnName.split('.')[0]\<close> reads
  index 0 of the split; on an empty array the read would give \<^verbatim>\<open>undefined\<close>, which no
  array of strings includes, so the column would be kept (the split is never empty).
\<close>

definition keepColumn :: "string list \<Rightarrow> string \<Rightarrow> bool" where
  "keepColumn columnNames columnName =
     (if includes_dot columnName then
        (case split (CHR ''.'') columnName of
           [] \<Rightarrow> True
         | parentColumnName # _ \<Rightarrow> parentColumnName \<notin> set columnNames)
      else True)"

text \<open>\<^verbatim>\<open>filterNestedColumns\<close>, the filter as a function of its own.\<close>

definition filterNestedColumns :: "string list \<Rightarrow> string list" where
  "filterNestedColumns columnNames = filter (keepColumn columnNames) columnNames"

text \<open>
  \<^verbatim>\<open>generateQuery\<close> of bigquery.js. The column selection is \<open>None\<close> when the caller passes
  \<^verbatim>\<open>null\<close> or nothing. The filter is written inline in the source, with the same body as
  \<^const>\<open>filterNestedColumns\<close>.
\<close>

definition generateQuery :: "string \<Rightarrow> string \<Rightarrow> string \<Rightarrow> string list option \<Rightarrow> string" where
  "generateQuery projectKey datasetName tableName columnNames =
     (case columnNames of
        None \<Rightarrow>
          ''SELECT\<newline>  *\<newline>FROM `'' @ projectKey @ ''.'' @ datasetName @ ''.'' @ tableName
            @ ''`\<newline>LIMIT 100''
      | Some names \<Rightarrow>
          if length names = 0 then
            ''SELECT\<newline>  *\<newline>FROM `'' @ projectKey @ ''.'' @ datasetName @ ''.'' @ tableName
              @ ''`\<newline>LIMIT 100''
          else
            (let filteredColumns = filter (keepColumn names) names;
                 formattedColumns = join '',\<newline>  '' filteredColumns
             in ''SELECT\<newline>  '' @ formattedColumns @ ''\<newline>FROM `'' @ projectKey @ ''.''
                  @ datasetName @ ''.'' @ tableName @ ''`\<newline>LIMIT 100''))"

section \<open>JavaScript objects, numbers and errors\<close>

text \<open>
  A plain object, as \<^verbatim>\<open>JSON.parse\<close> builds it, is modelled by the list of its own properties
  in insertion order, which for a parsed document is the order of the keys in the text. The
  keys of an object are distinct (\<open>distinct_keys\<close> below).

  \<^verbatim>\<open>Object.entries\<close> and \<^verbatim>\<open>Object.keys\<close> do not enumerate in insertion order: the keys that
  are array indices come first, in ascending numeric order, and the other keys follow in
  insertion order. A key is an array index when it is the decimal numeral, without leading
  zeros, of an integer from 0 to 4294967294.
\<close>

type_synonym 'v js_object = "(string \<times> 'v) list"

definition distinct_keys :: "'v js_object \<Rightarrow> bool" where
  "distinct_keys obj = distinct (map fst obj)"

definition decimal :: "string \<Rightarrow> nat" where
  "decimal s = foldl (\<lambda>n c. 10 * n + (of_char c - 48)) 0 s"

definition is_array_index :: "string \<Rightarrow> bool" where
  "is_array_index key =
     (case key of
        [] \<Rightarrow> False
      | c # cs \<Rightarrow> list_all is_digit key \<and> (if c = CHR ''0'' then cs = [] else True)
                  \<and> decimal key \<le> 4294967294)"

definition Object_entries :: "'v js_object \<Rightarrow> (string \<times> 'v) list" where
  "Object_entries obj =
     sort_key (\<lambda>entry. decimal (fst entry)) (filter (\<lambda>entry. is_array_index (fst entry)) obj)
     @ filter (\<lambda>entry. \<not> is_array_index (fst entry)) obj"

definition Object_keys :: "'v js_object \<Rightarrow> string list" where
  "Object_keys obj = map fst (Object_entries obj)"

text \<open>
  A property read \<^verbatim>\<open>obj[key]\<close> finds an own property first and then follows the prototype
  chain. The prototype of a parsed object is \<^verbatim>\<open>Object.prototype\<close>, whose property names are
  listed here; each of them reads as a function, or as \<^verbatim>\<open>Object.prototype\<close> itself for
  \<^verbatim>\<open>__proto__\<close>, so each is truthy and has neither a \<^verbatim>\<open>description\<close> nor a \<^verbatim>\<open>tables\<close>
  property. Any other key reads as \<^verbatim>\<open>undefined\<close>.
\<close>

definition Object_prototype_keys :: "string list" where
  "Object_prototype_keys =
     [''constructor'', ''__defineGetter__'', ''__defineSetter__'', ''hasOwnProperty'',
      ''__lookupGetter__'', ''__lookupSetter__'', ''isPrototypeOf'', ''propertyIsEnumerable'',
      ''toString'', ''valueOf'', ''__proto__'', ''toLocaleString'']"

datatype 'v js_property = Own 'v | Inherited | Undefined

definition js_get :: "'v js_object \<Rightarrow> string \<Rightarrow> 'v js_property" where
  "js_get obj key =
     (case map_of obj key of
        Some v \<Rightarrow> Own v
      | None \<Rightarrow> if key \<in> set Object_prototype_keys then Inherited else Undefined)"

text \<open>What a function can throw: \<^verbatim>\<open>new Error(message)\<close>, the \<^verbatim>\<open>TypeError\<close> of the runtime for
  a property read on \<^verbatim>\<open>undefined\<close>, and its \<^verbatim>\<open>RangeError\<close> for a call with too many
  arguments.\<close>

datatype js_error = Error string | TypeError | RangeError

text \<open>
  The numbers the catalog computes with: an integer count of milliseconds, \<^verbatim>\<open>NaN\<close> (the
  time of an invalid date) and \<^verbatim>\<open>-Infinity\<close>. \<^verbatim>\<open>Math.max\<close> starts from \<^verbatim>\<open>-Infinity\<close>,
  returns \<^verbatim>\<open>NaN\<close> as soon as an argument is \<^verbatim>\<open>NaN\<close>, and otherwise keeps the highest
  argument.
\<close>

datatype js_number = NegInfinity | Number int | NaN

fun js_less :: "js_number \<Rightarrow> js_number \<Rightarrow> bool" where
  "js_less NegInfinity (Number b) = True"
| "js_less (Number a) (Number b) = (a < b)"
| "js_less _ _ = False"

fun Math_max_from :: "js_number \<Rightarrow> js_number list \<Rightarrow> js_number" where
  "Math_max_from highest [] = highest"
| "Math_max_from highest (NaN # rest) = NaN"
| "Math_max_from highest (n # rest) = Math_max_from (if js_less highest n then n else highest) rest"

definition Math_max :: "js_number list \<Rightarrow> js_number" where
  "Math_max values = Math_max_from NegInfinity values"

text \<open>
  The call \<^verbatim>\<open>Math.max(...values)\<close> spreads the array: every element becomes an argument of
  the call. An engine accepts only so many arguments and throws \<^verbatim>\<open>RangeError\<close> beyond;
  how many is the engine's own matter and is the parameter \<open>argumentLimit\<close>.
\<close>

definition Math_max_spread :: "nat \<Rightarrow> js_number list \<Rightarrow> js_error + js_number" where
  "Math_max_spread argumentLimit values =
     (if argumentLimit < length values then Inl RangeError else Inr (Math_max values))"

text \<open>\<^verbatim>\<open>xs.forEach(f)\<close> where \<open>f\<close> updates a variable of the enclosing function: the variable
  is passed through, and an exception thrown by \<open>f\<close> ends the loop.\<close>

fun forEach :: "('a \<Rightarrow> 's \<Rightarrow> js_error + 's) \<Rightarrow> 'a list \<Rightarrow> 's \<Rightarrow> js_error + 's" where
  "forEach f [] s = Inr s"
| "forEach f (x # xs) s = (case f x s of Inl e \<Rightarrow> Inl e | Inr s' \<Rightarrow> forEach f xs s')"

text \<open>\<^verbatim>\<open>xs.map(f)\<close> where \<open>f\<close> may throw.\<close>

fun map_throwing :: "('a \<Rightarrow> js_error + 'b) \<Rightarrow> 'a list \<Rightarrow> js_error + 'b list" where
  "map_throwing f [] = Inr []"
| "map_throwing f (x # xs) =
     (case f x of
        Inl e \<Rightarrow> Inl e
      | Inr y \<Rightarrow> (case map_throwing f xs of Inl e \<Rightarrow> Inl e | Inr ys \<Rightarrow> Inr (y # ys)))"

text \<open>A \<^verbatim>\<open>Set\<close> of strings is the list of its elements in insertion order; \<^verbatim>\<open>Array.from\<close>
  returns that list.\<close>

definition Set_add :: "'a \<Rightarrow> 'a list \<Rightarrow> 'a list" where
  "Set_add x elements = (if x \<in> set elements then elements else elements @ [x])"

section \<open>The catalog data model (catalog.js, schema.js)\<close>

text \<open>
  The typedefs of catalog.js and schema.js. Several of them have fields called name,
  description, type, project or tables; the record fields carry the record's name in front.
  A description that is absent is \<open>None\<close>. A \<open>DatasetFull\<close> is what \<^verbatim>\<open>getDatasetByName\<close>
  returns: its description and tables are \<open>None\<close> when the object returned holds
  \<^verbatim>\<open>undefined\<close> there.
\<close>

record ColumnInfo =
  column_type :: string
  column_description :: "string option"

record Table =
  table_name :: string
  created_at :: string
  schema :: "ColumnInfo js_object"

record DatasetRaw =
  raw_description :: string
  raw_tables :: "Table list"

record Dataset =
  dataset_name :: string
  dataset_project :: string
  dataset_description :: string
  tableCount :: nat
  lastUpdated :: js_number

record DatasetFull =
  full_name :: string
  full_project :: string
  full_description :: "string option"
  full_tables :: "Table list option"

record FormattedColumn =
  formatted_name :: string
  formatted_type :: string
  formatted_description :: string

type_synonym CatalogData = "DatasetRaw js_object js_object"

text \<open>A well-formed catalog document: project keys are distinct, and so are the dataset
  names of each project.\<close>

definition well_formed :: "CatalogData \<Rightarrow> bool" where
  "well_formed catalog =
     (distinct_keys catalog \<and> list_all (\<lambda>(projectKey, project). distinct_keys project) catalog)"

section \<open>The catalog store (catalog.js)\<close>

text \<open>
  \<^verbatim>\<open>loadCatalogData\<close> reads and parses the snapshot file; the functions below take the
  parsed document as their argument \<open>catalog\<close>. \<^verbatim>\<open>new Date(s).getTime()\<close> is a built-in of
  the runtime and is the parameter \<open>getTime\<close>.
\<close>

definition getProjectKeys :: "CatalogData \<Rightarrow> string list" where
  "getProjectKeys catalog = Object_keys catalog"

text \<open>
  The object pushed by \<^verbatim>\<open>getDatasets\<close> for one dataset, where \<open>raw\<close> is the value of
  \<^verbatim>\<open>catalog[projectKey][datasetName]\<close>. Its last field spreads the times of the tables into
  \<^verbatim>\<open>Math.max\<close>, which is where building the object can throw.
\<close>

definition datasetView ::
  "nat \<Rightarrow> (string \<Rightarrow> js_number) \<Rightarrow> string \<Rightarrow> string \<Rightarrow> DatasetRaw \<Rightarrow> js_error + Dataset" where
  "datasetView argumentLimit getTime projectKey datasetName raw =
     (case Math_max_spread argumentLimit
             (map (\<lambda>table. getTime (created_at table)) (raw_tables raw)) of
        Inl e \<Rightarrow> Inl e
      | Inr latest \<Rightarrow>
          Inr \<lparr>dataset_name = datasetName,
               dataset_project = projectKey,
               dataset_description = raw_description raw,
               tableCount = length (raw_tables raw),
               lastUpdated = latest\<rparr>)"

text \<open>
  \<^verbatim>\<open>getDatasets\<close>, over all projects. \<^verbatim>\<open>Object.keys\<close> of an inherited value (a built-in
  function) is empty, and of \<^verbatim>\<open>undefined\<close> it throws. A value
  \<^verbatim>\<open>catalog[projectKey][datasetName]\<close> that is not an own property has no \<^verbatim>\<open>tables\<close>, and
  reading \<^verbatim>\<open>.tables.length\<close> throws.
\<close>

definition getDatasets ::
  "nat \<Rightarrow> (string \<Rightarrow> js_number) \<Rightarrow> CatalogData \<Rightarrow> js_error + Dataset list" where
  "getDatasets argumentLimit getTime catalog =
     (let projectKeys = getProjectKeys catalog in
      forEach (\<lambda>projectKey allDatasets.
          case js_get catalog projectKey of
            Own project \<Rightarrow>
              forEach (\<lambda>datasetName allDatasets.
                  case js_get project datasetName of
                    Own raw \<Rightarrow>
                      (case datasetView argumentLimit getTime projectKey datasetName raw of
                         Inl e \<Rightarrow> Inl e
                       | Inr view \<Rightarrow> Inr (allDatasets @ [view]))
                  | Inherited \<Rightarrow> Inl TypeError
                  | Undefined \<Rightarrow> Inl TypeError)
                (Object_keys project) allDatasets
          | Inherited \<Rightarrow> Inr allDatasets
          | Undefined \<Rightarrow> Inl TypeError)
        projectKeys [])"

text \<open>
  \<^verbatim>\<open>getDatasetByName\<close>: the loop over the project keys, then the function. The test
  \<^verbatim>\<open>if (catalog[projectKey][datasetName])\<close> holds for every value that is not
  \<^verbatim>\<open>undefined\<close>: a dataset object is truthy, and so is every inherited property, which has
  no \<^verbatim>\<open>description\<close> and no \<^verbatim>\<open>tables\<close>.

  In this function and in the two others that loop over the project keys, each
  \<open>projectKey\<close> is a key of \<open>catalog\<close>, so the read \<^verbatim>\<open>catalog[projectKey]\<close> finds an own
  property (lemma \<open>js_get_key\<close>) and its two other cases are never taken.
\<close>

fun getDatasetByName_loop :: "CatalogData \<Rightarrow> string \<Rightarrow> string list \<Rightarrow> js_error + DatasetFull" where
  "getDatasetByName_loop catalog datasetName [] =
     Inl (Error (''Dataset \"'' @ datasetName @ ''\" not found in any project''))"
| "getDatasetByName_loop catalog datasetName (projectKey # rest) =
     (case js_get catalog projectKey of
        Own project \<Rightarrow>
          (case js_get project datasetName of
             Own raw \<Rightarrow>
               Inr \<lparr>full_name = datasetName,
                    full_project = projectKey,
                    full_description = Some (raw_description raw),
                    full_tables = Some (raw_tables raw)\<rparr>
           | Inherited \<Rightarrow>
               Inr \<lparr>full_name = datasetName,
                    full_project = projectKey,
                    full_description = None,
                    full_tables = None\<rparr>
           | Undefined \<Rightarrow> getDatasetByName_loop catalog datasetName rest)
      | Inherited \<Rightarrow> getDatasetByName_loop catalog datasetName rest
      | Undefined \<Rightarrow> Inl TypeError)"

definition getDatasetByName :: "CatalogData \<Rightarrow> string \<Rightarrow> js_error + DatasetFull" where
  "getDatasetByName catalog datasetName =
     getDatasetByName_loop catalog datasetName (getProjectKeys catalog)"

text \<open>\<^verbatim>\<open>getDatasetNames\<close>, over all projects.\<close>

definition getDatasetNames :: "CatalogData \<Rightarrow> js_error + string list" where
  "getDatasetNames catalog =
     (let projectKeys = getProjectKeys catalog in
      forEach (\<lambda>projectKey allNames.
          case js_get catalog projectKey of
            Own project \<Rightarrow>
              forEach (\<lambda>datasetName allNames. Inr (Set_add datasetName allNames))
                (Object_keys project) allNames
          | Inherited \<Rightarrow> Inr allNames
          | Undefined \<Rightarrow> Inl TypeError)
        projectKeys [])"

section \<open>The schema formatter (schema.js)\<close>

text \<open>The placeholder \<^verbatim>\<open>'Sem descri\<close>..\<^verbatim>\<open>o'\<close>: its two letters outside ASCII are the code units
  231 (c with cedilla) and 227 (a with tilde).\<close>

definition Sem_descricao :: string where
  "Sem_descricao = ''Sem descri'' @ [CHR 0xE7, CHR 0xE3] @ ''o''"

text \<open>\<^verbatim>\<open>formatSchema\<close>; its argument, the schema of a table, is \<open>columns\<close> here. In
  \<^verbatim>\<open>columnInfo.description || placeholder\<close> an absent description and the empty string are
  falsy.\<close>

definition formatSchema :: "ColumnInfo js_object \<Rightarrow> FormattedColumn list" where
  "formatSchema columns =
     map (\<lambda>(columnName, columnInfo).
           \<lparr>formatted_name = columnName,
            formatted_type = column_type columnInfo,
            formatted_description =
              (case column_description columnInfo of
                 None \<Rightarrow> Sem_descricao
               | Some text \<Rightarrow> if text = [] then Sem_descricao else text)\<rparr>)
         (Object_entries columns)"

section \<open>The catalog store with a single project (an earlier catalog.js)\<close>

text \<open>
  The earlier revision of catalog.js reads the one project \<^verbatim>\<open>rj-iplanrio\<close>; its views have
  no project field. \<^verbatim>\<open>Object.keys\<close> throws when the catalog has no such project.
\<close>

record Dataset_rj_iplanrio =
  rj_name :: string
  rj_description :: string
  rj_tableCount :: nat
  rj_lastUpdated :: js_number

definition getDatasets_rj_iplanrio ::
  "nat \<Rightarrow> (string \<Rightarrow> js_number) \<Rightarrow> CatalogData \<Rightarrow> js_error + Dataset_rj_iplanrio list" where
  "getDatasets_rj_iplanrio argumentLimit getTime catalog =
     (case js_get catalog ''rj-iplanrio'' of
        Own project \<Rightarrow>
          map_throwing (\<lambda>datasetName.
              case js_get project datasetName of
                Own raw \<Rightarrow>
                  (case Math_max_spread argumentLimit
                          (map (\<lambda>table. getTime (created_at table)) (raw_tables raw)) of
                     Inl e \<Rightarrow> Inl e
                   | Inr latest \<Rightarrow>
                       Inr \<lparr>rj_name = datasetName,
                            rj_description = raw_description raw,
                            rj_tableCount = length (raw_tables raw),
                            rj_lastUpdated = latest\<rparr>)
              | Inherited \<Rightarrow> Inl TypeError
              | Undefined \<Rightarrow> Inl TypeError)
            (Object_keys project)
      | Inherited \<Rightarrow> Inr []
      | Undefined \<Rightarrow> Inl TypeError)"

section \<open>The Python snippet (bigquery.js)\<close>

text \<open>
  The regular expression \<^verbatim>\<open>/LIMIT\s+\d+/i\<close>, on code units below 256. With the flag
  \<^verbatim>\<open>i\<close> each letter of the keyword matches itself in either case and nothing else. The
  class \<^verbatim>\<open>\s\<close> holds tab, line feed, vertical tab, form feed, carriage return, space and
  the no-break space; \<^verbatim>\<open>\d\<close> holds the ten digits (\<open>is_digit\<close> above). Both repetitions
  are greedy, and as the two classes are disjoint the match at a position, when there is
  one, takes the whole run of white space and the whole run of digits.
\<close>

definition is_whitespace :: "char \<Rightarrow> bool" where
  "is_whitespace c =
     (c \<in> set [CHR 0x09, CHR 0x0A, CHR 0x0B, CHR 0x0C, CHR 0x0D, CHR 0x20, CHR 0xA0])"

text \<open>The keyword at the start of a string; the result is the rest of the string.\<close>

fun match_keyword :: "string \<Rightarrow> string option" where
  "match_keyword (c1 # c2 # c3 # c4 # c5 # rest) =
     (if c1 \<in> set ''Ll'' \<and> c2 \<in> set ''Ii'' \<and> c3 \<in> set ''Mm'' \<and> c4 \<in> set ''Ii''
         \<and> c5 \<in> set ''Tt''
      then Some rest else None)"
| "match_keyword _ = None"

text \<open>The whole expression at the start of a string; the result is what follows the match.\<close>

definition match_LIMIT :: "string \<Rightarrow> string option" where
  "match_LIMIT s =
     (case match_keyword s of
        None \<Rightarrow> None
      | Some rest \<Rightarrow>
          (let spaces = takeWhile is_whitespace rest;
               after = dropWhile is_whitespace rest;
               digits = takeWhile is_digit after
           in if spaces \<noteq> [] \<and> digits \<noteq> [] then Some (dropWhile is_digit after) else None))"

text \<open>\<^verbatim>\<open>s.replace(/LIMIT\s+\d+/i, 'LIMIT @limit')\<close>: without the flag \<^verbatim>\<open>g\<close>, the leftmost
  match is replaced and the rest of the string is kept.\<close>

fun replace_LIMIT :: "string \<Rightarrow> string" where
  "replace_LIMIT [] = []"
| "replace_LIMIT (c # cs) =
     (case match_LIMIT (c # cs) of
        Some rest \<Rightarrow> ''LIMIT @limit'' @ rest
      | None \<Rightarrow> c # replace_LIMIT cs)"

text \<open>\<^verbatim>\<open>generatePythonRequest\<close>: the template literal, line by line.\<close>

definition generatePythonRequest ::
  \<open>string \<Rightarrow> string \<Rightarrow> string \<Rightarrow> string list option \<Rightarrow> string\<close> where
  \<open>generatePythonRequest projectKey datasetName tableName selectedColumns =
     (let query = generateQuery projectKey datasetName tableName selectedColumns;
          parametrizedQuery = replace_LIMIT query;
          indentedQuery =
            join ''\<newline>'' (map (\<lambda>line. ''    '' @ line) (split (CHR ''\<newline>'') parametrizedQuery))
      in (''from google.cloud import bigquery\<newline>''
        @ ''from google.api_core.exceptions import GoogleAPIError\<newline>''
        @ ''from google.auth.exceptions import DefaultCredentialsError\<newline>''
        @ ''\<newline>''
        @ ''# -----------------------------------------------------\<newline>''
        @ ''# Autentica'' @ [CHR 0xE7, CHR 0xE3] @ ''o:\<newline>''
        @ ''# Antes de rodar o script execute:\<newline>''
        @ ''# gcloud auth application-default login\<newline>''
        @ ''# -----------------------------------------------------\<newline>''
        @ ''\<newline>''
        @ ''PROJECT_ID = "''
        @ projectKey
        @ ''"\<newline>''
        @ ''TABLE_ID = "''
        @ projectKey
        @ ''.''
        @ datasetName
        @ ''.''
        @ tableName
        @ ''"\<newline>''
        @ ''\<newline>''
        @ ''client = bigquery.Client(project=PROJECT_ID)\<newline>''
        @ ''\<newline>''
        @ ''def run_query(limit=100):\<newline>''
        @ ''    try:\<newline>''
        @ ''        query = """\<newline>'')
        @ indentedQuery
        @ (''\<newline>''
        @ ''        """\<newline>''
        @ ''\<newline>''
        @ ''        job_config = bigquery.QueryJobConfig(\<newline>''
        @ ''            query_parameters=[\<newline>''
        @ ''                bigquery.ScalarQueryParameter("limit", "INT64", limit),\<newline>''
        @ ''            ],\<newline>''
        @ ''            use_query_cache=True,\<newline>''
        @ ''            dry_run=False,\<newline>''
        @ ''        )\<newline>''
        @ ''\<newline>''
        @ ''        job = client.query(query, job_config=job_config)\<newline>''
        @ ''        results = job.result(timeout=60)\<newline>''
        @ ''\<newline>''
        @ ''        return [dict(row) for row in results]\<newline>''
        @ ''\<newline>''
        @ ''    except (GoogleAPIError, DefaultCredentialsError) as exc:\<newline>''
        @ ''        raise RuntimeError(f"Erro ao executar query: {exc}") from exc\<newline>''
        @ ''\<newline>''
        @ ''\<newline>''
        @ ''if __name__ == "__main__":\<newline>''
        @ ''    for row in run_query(limit=100):\<newline>''
        @ ''        print(row)\<newline>''))\<close>

section \<open>The nested-column rule, in the words of the specification\<close>

text \<open>
  A column is redundant in a selection when it has the form \<open>parent.rest\<close>, where
  \<open>parent\<close> holds no separator (it is the prefix before the first one), and \<open>parent\<close>
  is itself selected.
\<close>

definition redundant :: "string list \<Rightarrow> string \<Rightarrow> bool" where
  "redundant columnNames columnName =
     (\<exists>parent rest. columnName = parent @ CHR ''.'' # rest \<and> CHR ''.'' \<notin> set parent
        \<and> parent \<in> set columnNames)"

section \<open>Properties of the string built-ins\<close>

lemma split_not_empty: "split sep s \<noteq> []"
  by (induction s) (auto split: list.splits)

lemma split_first_field: "split sep s = takeWhile (\<lambda>c. c \<noteq> sep) s # tl (split sep s)"
proof (induction s)
  case Nil
  show ?case by simp
next
  case (Cons c cs)
  then show ?case
    by (cases "split sep cs") (auto simp: split_not_empty)
qed

lemma dotted_decompose:
  "CHR ''.'' \<in> set s \<Longrightarrow>
     s = takeWhile (\<lambda>c. c \<noteq> CHR ''.'') s @ CHR ''.'' # tl (dropWhile (\<lambda>c. c \<noteq> CHR ''.'') s)"
proof -
  assume dot: "CHR ''.'' \<in> set s"
  then have "dropWhile (\<lambda>c. c \<noteq> CHR ''.'') s \<noteq> []"
    by (simp add: dropWhile_eq_Nil_conv)
  then obtain y ys where d: "dropWhile (\<lambda>c. c \<noteq> CHR ''.'') s = y # ys"
    by (cases "dropWhile (\<lambda>c. c \<noteq> CHR ''.'') s") auto
  then have "y = CHR ''.''"
    using hd_dropWhile [of "\<lambda>c. c \<noteq> CHR ''.''" s] by auto
  with d have "dropWhile (\<lambda>c. c \<noteq> CHR ''.'') s
      = CHR ''.'' # tl (dropWhile (\<lambda>c. c \<noteq> CHR ''.'') s)"
    by simp
  then show ?thesis
    using takeWhile_dropWhile_id [of "\<lambda>c. c \<noteq> CHR ''.''" s] by metis
qed

lemma prefix_before_first_dot:
  "CHR ''.'' \<notin> set parent \<Longrightarrow> takeWhile (\<lambda>c. c \<noteq> CHR ''.'') (parent @ CHR ''.'' # rest) = parent"
  by (induction parent) auto

lemma keepColumn_iff: "keepColumn columnNames columnName \<longleftrightarrow> \<not> redundant columnNames columnName"
proof (cases "CHR ''.'' \<in> set columnName")
  case False
  then have "\<not> redundant columnNames columnName"
    by (auto simp: redundant_def)
  with False show ?thesis
    by (simp add: keepColumn_def includes_dot_def)
next
  case True
  let ?p = "takeWhile (\<lambda>c. c \<noteq> CHR ''.'') columnName"
  obtain fields where "split (CHR ''.'') columnName = ?p # fields"
    using split_first_field [of "CHR ''.''" columnName] by blast
  with True have keep: "keepColumn columnNames columnName \<longleftrightarrow> ?p \<notin> set columnNames"
    by (simp add: keepColumn_def includes_dot_def)
  have "redundant columnNames columnName \<longleftrightarrow> ?p \<in> set columnNames"
  proof
    assume "redundant columnNames columnName"
    then obtain parent rest where
      "columnName = parent @ CHR ''.'' # rest" "CHR ''.'' \<notin> set parent" "parent \<in> set columnNames"
      by (auto simp: redundant_def)
    then show "?p \<in> set columnNames"
      by (simp add: prefix_before_first_dot)
  next
    assume "?p \<in> set columnNames"
    moreover have "CHR ''.'' \<notin> set ?p"
      using set_takeWhileD by fastforce
    ultimately show "redundant columnNames columnName"
      unfolding redundant_def using dotted_decompose [OF True] by blast
  qed
  with keep show ?thesis by simp
qed

lemma keepColumn_first_prefix:
  "CHR ''.'' \<in> set columnName \<Longrightarrow>
     keepColumn columnNames columnName \<longleftrightarrow>
       takeWhile (\<lambda>c. c \<noteq> CHR ''.'') columnName \<notin> set columnNames"
proof -
  assume dot: "CHR ''.'' \<in> set columnName"
  obtain fields where
    "split (CHR ''.'') columnName = takeWhile (\<lambda>c. c \<noteq> CHR ''.'') columnName # fields"
    using split_first_field [of "CHR ''.''" columnName] by blast
  with dot show ?thesis
    by (simp add: keepColumn_def includes_dot_def)
qed

lemma keepColumn_undotted: "CHR ''.'' \<notin> set columnName \<Longrightarrow> keepColumn columnNames columnName"
  by (simp add: keepColumn_def includes_dot_def)

lemma keepColumn_antimono:
  "set selected \<subseteq> set columnNames \<Longrightarrow> keepColumn columnNames columnName
     \<Longrightarrow> keepColumn selected columnName"
  by (cases "CHR ''.'' \<in> set columnName")
     (auto simp: keepColumn_first_prefix keepColumn_undotted)

lemma generateQuery_filter:
  "names \<noteq> [] \<Longrightarrow>
     generateQuery projectKey datasetName tableName (Some names) =
       ''SELECT\<newline>  '' @ join '',\<newline>  '' (filterNestedColumns names) @ ''\<newline>FROM `'' @ projectKey
         @ ''.'' @ datasetName @ ''.'' @ tableName @ ''`\<newline>LIMIT 100''"
  by (simp add: generateQuery_def filterNestedColumns_def)

lemma join_indent:
  "xs \<noteq> [] \<Longrightarrow> ''  '' @ join '',\<newline>  '' xs = join '',\<newline>'' (map (\<lambda>c. ''  '' @ c) xs)"
proof (induction xs rule: list_nonempty_induct)
  case (single x)
  show ?case by simp
next
  case (cons x xs)
  then obtain y ys where "xs = y # ys"
    by (cases xs) auto
  with cons show ?case by simp
qed

lemma filterNestedColumns_not_empty: "cols \<noteq> [] \<Longrightarrow> filterNestedColumns cols \<noteq> []"
proof -
  assume "cols \<noteq> []"
  then obtain c where c: "c \<in> set cols"
    by (cases cols) auto
  let ?p = "takeWhile (\<lambda>x. x \<noteq> CHR ''.'') c"
  have no_dot: "CHR ''.'' \<notin> set ?p"
    using set_takeWhileD by fastforce
  have "\<exists>k \<in> set cols. keepColumn cols k"
  proof (cases "CHR ''.'' \<in> set c \<and> ?p \<in> set cols")
    case True
    then show ?thesis
      using no_dot keepColumn_undotted by blast
  next
    case False
    with c show ?thesis
      using keepColumn_undotted keepColumn_first_prefix by blast
  qed
  then show ?thesis
    by (auto simp: filterNestedColumns_def filter_empty_conv)
qed

lemma first_prefix_of_descendant:
  "CHR ''.'' \<in> set ancestor \<Longrightarrow>
     takeWhile (\<lambda>c. c \<noteq> CHR ''.'') (ancestor @ CHR ''.'' # rest)
       = takeWhile (\<lambda>c. c \<noteq> CHR ''.'') ancestor"
  by (simp add: takeWhile_append1 [of "CHR ''.''"])

section \<open>The nested-column filter\<close>

text \<open>
  Claim C1. For every input sequence of column names, the nested-column filter inside
  generateQuery drops a dotted column if and only if the prefix before its first separator
  is itself in the input; every column without a separator is kept; and the surviving
  columns keep the order of the input. Stated as: the filter returns the input with exactly
  the redundant columns removed, occurrence by occurrence and in order; it is a subsequence
  of the input that holds every undotted column; and the query generated for a non-empty
  selection lists exactly this filtered sequence.
\<close>

theorem filterNestedColumns_rule:
  "filterNestedColumns cols = filter (\<lambda>c. \<not> redundant cols c) cols
   \<and> subseq (filterNestedColumns cols) cols
   \<and> (\<forall>c \<in> set cols. CHR ''.'' \<notin> set c \<longrightarrow> c \<in> set (filterNestedColumns cols))
   \<and> (\<forall>c \<in> set cols. CHR ''.'' \<in> set c \<longrightarrow>
         (c \<in> set (filterNestedColumns cols)
            \<longleftrightarrow> takeWhile (\<lambda>x. x \<noteq> CHR ''.'') c \<notin> set cols))
   \<and> (cols \<noteq> [] \<longrightarrow>
         generateQuery projectKey datasetName tableName (Some cols) =
           ''SELECT\<newline>  '' @ join '',\<newline>  '' (filter (\<lambda>c. \<not> redundant cols c) cols)
             @ ''\<newline>FROM `'' @ projectKey @ ''.'' @ datasetName @ ''.'' @ tableName
             @ ''`\<newline>LIMIT 100'')"
proof -
  have eq: "filterNestedColumns cols = filter (\<lambda>c. \<not> redundant cols c) cols"
    unfolding filterNestedColumns_def
    by (rule filter_cong) (simp_all add: keepColumn_iff)
  have sub: "subseq (filterNestedColumns cols) cols"
    by (simp add: filterNestedColumns_def)
  have undotted: "\<forall>c \<in> set cols. CHR ''.'' \<notin> set c \<longrightarrow> c \<in> set (filterNestedColumns cols)"
    by (simp add: filterNestedColumns_def keepColumn_undotted)
  have dotted: "\<forall>c \<in> set cols. CHR ''.'' \<in> set c \<longrightarrow>
         (c \<in> set (filterNestedColumns cols)
            \<longleftrightarrow> takeWhile (\<lambda>x. x \<noteq> CHR ''.'') c \<notin> set cols)"
    by (simp add: filterNestedColumns_def keepColumn_first_prefix)
  have query: "cols \<noteq> [] \<longrightarrow>
         generateQuery projectKey datasetName tableName (Some cols) =
           ''SELECT\<newline>  '' @ join '',\<newline>  '' (filter (\<lambda>c. \<not> redundant cols c) cols)
             @ ''\<newline>FROM `'' @ projectKey @ ''.'' @ datasetName @ ''.'' @ tableName
             @ ''`\<newline>LIMIT 100''"
    using generateQuery_filter [of cols projectKey datasetName tableName] eq by simp
  from eq sub undotted dotted query show ?thesis
    by blast
qed

theorem filterNestedColumns_rule_witness:
  "''address'' \<in> set [''address'', ''address.city'', ''name'']
   \<and> CHR ''.'' \<notin> set ''address''
   \<and> ''address.city'' \<in> set [''address'', ''address.city'', ''name'']
   \<and> CHR ''.'' \<in> set ''address.city''
   \<and> [''address'', ''address.city'', ''name''] \<noteq> []
   \<and> filterNestedColumns [''address'', ''address.city'', ''name''] = [''address'', ''name'']
   \<and> generateQuery ''p'' ''d'' ''t'' (Some [''address'', ''address.city'', ''name''])
       = ''SELECT\<newline>  address,\<newline>  name\<newline>FROM `p.d.t`\<newline>LIMIT 100''"
  using filterNestedColumns_rule [of "[''address'', ''address.city'', ''name'']" "''p''" "''d''" "''t''"]
  by (simp add: filterNestedColumns_def keepColumn_def includes_dot_def generateQuery_def)

text \<open>
  Claim C6. The nested-column filter is idempotent: filtering its own output gives the
  output back.
\<close>

theorem filterNestedColumns_idempotent:
  "filterNestedColumns (filterNestedColumns cols) = filterNestedColumns cols"
proof -
  let ?selected = "filterNestedColumns cols"
  have "set ?selected \<subseteq> set cols"
    by (simp add: filterNestedColumns_def)
  moreover have "\<And>c. c \<in> set ?selected \<Longrightarrow> keepColumn cols c"
    by (simp add: filterNestedColumns_def)
  ultimately have "\<And>c. c \<in> set ?selected \<Longrightarrow> keepColumn ?selected c"
    by (blast intro: keepColumn_antimono)
  then have "filter (keepColumn ?selected) ?selected = ?selected"
    by (simp add: filter_id_conv)
  then show ?thesis
    by (simp add: filterNestedColumns_def [of ?selected])
qed

text \<open>
  Claim C10, as stated: for every input in which a dotted column's covering parent is itself
  dotted, both columns survive and both are emitted in the generated query. In the selection
  address, address.city, address.city.zip the column address.city.zip has the dotted covering
  parent address.city, and neither of the two survives: the prefix before their first
  separator, address, is selected too.
\<close>

theorem dotted_ancestor_counterexample:
  "CHR ''.'' \<in> set ''address.city''
   \<and> ''address.city'' \<in> set [''address'', ''address.city'', ''address.city.zip'']
   \<and> ''address.city'' @ ''.zip'' \<in> set [''address'', ''address.city'', ''address.city.zip'']
   \<and> ''address.city'' \<notin> set (filterNestedColumns [''address'', ''address.city'', ''address.city.zip''])
   \<and> ''address.city.zip''
        \<notin> set (filterNestedColumns [''address'', ''address.city'', ''address.city.zip''])
   \<and> generateQuery ''p'' ''d'' ''t'' (Some [''address'', ''address.city'', ''address.city.zip''])
       = ''SELECT\<newline>  address\<newline>FROM `p.d.t`\<newline>LIMIT 100''"
  by (simp add: filterNestedColumns_def keepColumn_def includes_dot_def generateQuery_def)

text \<open>
  Claim C10, amended. The filter never removes a dotted column on account of a dotted
  ancestor: only the prefix before the first separator is consulted. Whenever a selected
  column is removed, an undotted parent of it (that prefix) is selected. When a selected
  dotted column covers another selected column and the prefix before their first separator
  is not selected, both survive and both are emitted in the generated query, as for the
  selection address.city, address.city.zip.
\<close>

theorem dotted_ancestor_ignored:
  "(column \<in> set cols \<and> column \<notin> set (filterNestedColumns cols) \<longrightarrow>
      (\<exists>parent rest. column = parent @ CHR ''.'' # rest \<and> CHR ''.'' \<notin> set parent
          \<and> parent \<in> set cols))
   \<and> (CHR ''.'' \<in> set ancestor \<and> ancestor \<in> set cols \<and> ancestor @ CHR ''.'' # rest \<in> set cols
        \<and> takeWhile (\<lambda>c. c \<noteq> CHR ''.'') ancestor \<notin> set cols \<longrightarrow>
          ancestor \<in> set (filterNestedColumns cols)
          \<and> ancestor @ CHR ''.'' # rest \<in> set (filterNestedColumns cols)
          \<and> generateQuery projectKey datasetName tableName (Some cols) =
              ''SELECT\<newline>  '' @ join '',\<newline>  '' (filterNestedColumns cols) @ ''\<newline>FROM `''
                @ projectKey @ ''.'' @ datasetName @ ''.'' @ tableName @ ''`\<newline>LIMIT 100'')"
proof (intro conjI impI)
  assume "column \<in> set cols \<and> column \<notin> set (filterNestedColumns cols)"
  then have "\<not> keepColumn cols column"
    by (simp add: filterNestedColumns_def)
  then have "redundant cols column"
    by (simp add: keepColumn_iff)
  then show "\<exists>parent rest. column = parent @ CHR ''.'' # rest \<and> CHR ''.'' \<notin> set parent
      \<and> parent \<in> set cols"
    by (simp add: redundant_def)
next
  assume a: "CHR ''.'' \<in> set ancestor \<and> ancestor \<in> set cols
      \<and> ancestor @ CHR ''.'' # rest \<in> set cols
      \<and> takeWhile (\<lambda>c. c \<noteq> CHR ''.'') ancestor \<notin> set cols"
  then show "ancestor \<in> set (filterNestedColumns cols)"
    by (simp add: filterNestedColumns_def keepColumn_first_prefix)
  have "keepColumn cols (ancestor @ CHR ''.'' # rest)"
    using a by (simp add: keepColumn_first_prefix first_prefix_of_descendant)
  with a show "ancestor @ CHR ''.'' # rest \<in> set (filterNestedColumns cols)"
    by (simp add: filterNestedColumns_def)
  from a have "cols \<noteq> []" by auto
  then show "generateQuery projectKey datasetName tableName (Some cols) =
      ''SELECT\<newline>  '' @ join '',\<newline>  '' (filterNestedColumns cols) @ ''\<newline>FROM `''
        @ projectKey @ ''.'' @ datasetName @ ''.'' @ tableName @ ''`\<newline>LIMIT 100''"
    by (rule generateQuery_filter)
qed

theorem dotted_ancestor_ignored_witness:
  "''address.city'' \<in> set [''address'', ''address.city'']
   \<and> ''address.city'' \<notin> set (filterNestedColumns [''address'', ''address.city''])
   \<and> CHR ''.'' \<in> set ''address.city''
   \<and> ''address.city'' \<in> set [''address.city'', ''address.city.zip'']
   \<and> ''address.city'' @ CHR ''.'' # ''zip'' \<in> set [''address.city'', ''address.city.zip'']
   \<and> takeWhile (\<lambda>c. c \<noteq> CHR ''.'') ''address.city'' \<notin> set [''address.city'', ''address.city.zip'']
   \<and> filterNestedColumns [''address.city'', ''address.city.zip'']
       = [''address.city'', ''address.city.zip'']
   \<and> generateQuery ''p'' ''d'' ''t'' (Some [''address.city'', ''address.city.zip''])
       = ''SELECT\<newline>  address.city,\<newline>  address.city.zip\<newline>FROM `p.d.t`\<newline>LIMIT 100''"
  using dotted_ancestor_ignored [where column = "''address.city''"
      and cols = "[''address'', ''address.city'']"]
    dotted_ancestor_ignored [where ancestor = "''address.city''"
      and cols = "[''address.city'', ''address.city.zip'']" and rest = "''zip''"
      and projectKey = "''p''" and datasetName = "''d''" and tableName = "''t''"]
  by (simp add: filterNestedColumns_def keepColumn_def includes_dot_def generateQuery_def)

section \<open>The shape of the generated query\<close>

text \<open>
  Claim C4. For every project key, dataset name and table name, generateQuery with an empty
  or absent column selection returns the query that selects every column, and otherwise
  returns the filtered columns one per line, each indented by two spaces and separated by a
  comma at the end of the line (there is at least one such line); every query ends with the
  FROM clause on the backtick-quoted reference projectKey.datasetName.tableName and the fixed
  LIMIT 100. The query for proj, ds, tbl and the empty selection contains the select-all
  head and ends with the quoted reference and the limit.
\<close>

theorem generateQuery_shape:
  "generateQuery projectKey datasetName tableName None =
      ''SELECT\<newline>  *\<newline>FROM `'' @ projectKey @ ''.'' @ datasetName @ ''.'' @ tableName
        @ ''`\<newline>LIMIT 100''
   \<and> generateQuery projectKey datasetName tableName (Some []) =
      ''SELECT\<newline>  *\<newline>FROM `'' @ projectKey @ ''.'' @ datasetName @ ''.'' @ tableName
        @ ''`\<newline>LIMIT 100''
   \<and> (cols \<noteq> [] \<longrightarrow>
        filterNestedColumns cols \<noteq> []
        \<and> generateQuery projectKey datasetName tableName (Some cols) =
            ''SELECT\<newline>'' @ join '',\<newline>'' (map (\<lambda>c. ''  '' @ c) (filterNestedColumns cols))
              @ ''\<newline>FROM `'' @ projectKey @ ''.'' @ datasetName @ ''.'' @ tableName
              @ ''`\<newline>LIMIT 100'')
   \<and> suffix (''\<newline>FROM `'' @ projectKey @ ''.'' @ datasetName @ ''.'' @ tableName @ ''`\<newline>LIMIT 100'')
        (generateQuery projectKey datasetName tableName selection)
   \<and> sublist ''SELECT\<newline>  *'' (generateQuery ''proj'' ''ds'' ''tbl'' (Some []))
   \<and> suffix ''`proj.ds.tbl`\<newline>LIMIT 100'' (generateQuery ''proj'' ''ds'' ''tbl'' (Some []))"
proof -
  let ?tail = "''\<newline>FROM `'' @ projectKey @ ''.'' @ datasetName @ ''.'' @ tableName @ ''`\<newline>LIMIT 100''"
  have absent: "generateQuery projectKey datasetName tableName None = ''SELECT\<newline>  *'' @ ?tail"
    by (simp add: generateQuery_def)
  have empty: "generateQuery projectKey datasetName tableName (Some []) = ''SELECT\<newline>  *'' @ ?tail"
    by (simp add: generateQuery_def)
  have lines: "cols \<noteq> [] \<longrightarrow>
        filterNestedColumns cols \<noteq> []
        \<and> generateQuery projectKey datasetName tableName (Some cols) =
            ''SELECT\<newline>'' @ join '',\<newline>'' (map (\<lambda>c. ''  '' @ c) (filterNestedColumns cols)) @ ?tail"
  proof
    assume ne: "cols \<noteq> []"
    then have sel: "filterNestedColumns cols \<noteq> []"
      by (rule filterNestedColumns_not_empty)
    have "generateQuery projectKey datasetName tableName (Some cols) =
        ''SELECT\<newline>'' @ (''  '' @ join '',\<newline>  '' (filterNestedColumns cols)) @ ?tail"
      using generateQuery_filter [OF ne, of projectKey datasetName tableName] by simp
    also have "\<dots> = ''SELECT\<newline>'' @ join '',\<newline>'' (map (\<lambda>c. ''  '' @ c) (filterNestedColumns cols))
        @ ?tail"
      using join_indent [OF sel] by simp
    finally show "filterNestedColumns cols \<noteq> []
        \<and> generateQuery projectKey datasetName tableName (Some cols) =
            ''SELECT\<newline>'' @ join '',\<newline>'' (map (\<lambda>c. ''  '' @ c) (filterNestedColumns cols)) @ ?tail"
      using sel by simp
  qed
  have ending: "suffix ?tail (generateQuery projectKey datasetName tableName selection)"
  proof (cases selection)
    case None
    then show ?thesis
      using absent suffix_def by blast
  next
    case (Some names)
    show ?thesis
    proof (cases "names = []")
      case True
      with Some show ?thesis
        using empty suffix_def by blast
    next
      case False
      have "generateQuery projectKey datasetName tableName (Some names) =
          (''SELECT\<newline>  '' @ join '',\<newline>  '' (filterNestedColumns names)) @ ?tail"
        using generateQuery_filter [OF False, of projectKey datasetName tableName] by simp
      with Some show ?thesis
        using suffix_def by blast
    qed
  qed
  have q: "generateQuery ''proj'' ''ds'' ''tbl'' (Some []) =
      ''SELECT\<newline>  *\<newline>FROM `proj.ds.tbl`\<newline>LIMIT 100''"
    by (simp add: generateQuery_def)
  have head: "sublist ''SELECT\<newline>  *'' (generateQuery ''proj'' ''ds'' ''tbl'' (Some []))"
  proof -
    have "generateQuery ''proj'' ''ds'' ''tbl'' (Some []) =
        [] @ ''SELECT\<newline>  *'' @ ''\<newline>FROM `proj.ds.tbl`\<newline>LIMIT 100''"
      using q by simp
    then show ?thesis
      unfolding sublist_def by blast
  qed
  have tail: "suffix ''`proj.ds.tbl`\<newline>LIMIT 100'' (generateQuery ''proj'' ''ds'' ''tbl'' (Some []))"
  proof -
    have "generateQuery ''proj'' ''ds'' ''tbl'' (Some []) =
        ''SELECT\<newline>  *\<newline>FROM '' @ ''`proj.ds.tbl`\<newline>LIMIT 100''"
      using q by simp
    then show ?thesis
      unfolding suffix_def by blast
  qed
  from absent empty lines ending head tail show ?thesis
    by simp
qed

theorem generateQuery_shape_witness:
  "[''id'', ''address'', ''address.city''] \<noteq> []
   \<and> filterNestedColumns [''id'', ''address'', ''address.city''] = [''id'', ''address'']
   \<and> generateQuery ''proj'' ''ds'' ''tbl'' (Some [''id'', ''address'', ''address.city''])
       = ''SELECT\<newline>  id,\<newline>  address\<newline>FROM `proj.ds.tbl`\<newline>LIMIT 100''"
  using generateQuery_shape [of "''proj''" "''ds''" "''tbl''" "[''id'', ''address'', ''address.city'']"]
  by (simp add: filterNestedColumns_def keepColumn_def includes_dot_def)

section \<open>Properties of object enumeration\<close>

lemma set_Object_entries: "set (Object_entries obj) = set obj"
  by (auto simp: Object_entries_def)

lemma mset_Object_entries: "mset (Object_entries obj) = mset obj"
  by (simp add: Object_entries_def)

lemma length_Object_entries: "length (Object_entries obj) = length obj"
  using mset_Object_entries [of obj] by (metis size_mset)

lemma set_Object_keys: "set (Object_keys obj) = fst ` set obj"
  by (simp add: Object_keys_def set_Object_entries)

lemma distinct_Object_keys: "distinct (Object_keys obj) = distinct_keys obj"
proof -
  have "mset (map fst (Object_entries obj)) = mset (map fst obj)"
    by (simp add: mset_Object_entries)
  then show ?thesis
    unfolding Object_keys_def distinct_keys_def by (rule mset_eq_imp_distinct_iff)
qed

lemma index_entries:
  "filter (\<lambda>entry. is_array_index (fst entry)) (Object_entries obj)
     = sort_key (\<lambda>entry. decimal (fst entry)) (filter (\<lambda>entry. is_array_index (fst entry)) obj)"
proof -
  have "filter (\<lambda>entry. is_array_index (fst entry))
          (filter (\<lambda>entry. \<not> is_array_index (fst entry)) obj) = []"
    by (simp add: filter_empty_conv)
  then show ?thesis
    by (simp add: Object_entries_def filter_sort)
qed

lemma sorted_index_entries:
  "sorted (map (\<lambda>entry. decimal (fst entry))
     (filter (\<lambda>entry. is_array_index (fst entry)) (Object_entries obj)))"
  by (simp only: index_entries sorted_sort_key)

lemma Object_entries_split:
  "Object_entries obj = filter (\<lambda>entry. is_array_index (fst entry)) (Object_entries obj)
     @ filter (\<lambda>entry. \<not> is_array_index (fst entry)) obj"
  by (simp only: index_entries) (simp only: Object_entries_def)

lemma Object_entries_plain:
  "list_all (\<lambda>entry. \<not> is_array_index (fst entry)) obj \<Longrightarrow> Object_entries obj = obj"
  by (simp add: Object_entries_def list_all_iff filter_empty_conv filter_id_conv)

section \<open>Properties of the catalog store\<close>

lemma js_get_key: "key \<in> set (Object_keys obj) \<Longrightarrow> \<exists>v. js_get obj key = Own v"
proof -
  assume "key \<in> set (Object_keys obj)"
  then have "map_of obj key \<noteq> None"
    by (simp add: set_Object_keys map_of_eq_None_iff)
  then show ?thesis
    by (auto simp: js_get_def)
qed

lemma js_get_own: "distinct_keys obj \<Longrightarrow> (key, v) \<in> set obj \<Longrightarrow> js_get obj key = Own v"
  by (simp add: js_get_def distinct_keys_def)

lemma js_get_entry:
  "distinct_keys obj \<Longrightarrow> (key, v) \<in> set (Object_entries obj) \<Longrightarrow> js_get obj key = Own v"
  by (simp add: js_get_own set_Object_entries)

lemma js_get_Undefined_iff:
  "js_get obj key = Undefined \<longleftrightarrow> key \<notin> set (Object_keys obj) \<and> key \<notin> set Object_prototype_keys"
proof (cases "map_of obj key")
  case None
  then have "key \<notin> fst ` set obj"
    by (simp add: map_of_eq_None_iff)
  with None show ?thesis
    by (simp add: js_get_def set_Object_keys)
next
  case (Some v)
  then have "key \<in> fst ` set obj"
    by (metis map_of_eq_None_iff option.distinct(1))
  with Some show ?thesis
    by (simp add: js_get_def set_Object_keys)
qed

lemma well_formed_project:
  "well_formed catalog \<Longrightarrow> (projectKey, project) \<in> set catalog \<Longrightarrow>
     js_get catalog projectKey = Own project \<and> distinct_keys project"
  by (auto simp: well_formed_def list_all_iff js_get_own)

lemma well_formed_entry:
  "well_formed catalog \<Longrightarrow> (projectKey, project) \<in> set (Object_entries catalog) \<Longrightarrow>
     js_get catalog projectKey = Own project \<and> distinct_keys project"
  by (simp add: well_formed_project set_Object_entries)

lemma Math_max_no_arguments: "Math_max [] = NegInfinity"
  by (simp add: Math_max_def)

lemma datasetView_within:
  "length (raw_tables raw) \<le> argumentLimit \<Longrightarrow>
     datasetView argumentLimit getTime projectKey datasetName raw =
       Inr \<lparr>dataset_name = datasetName, dataset_project = projectKey,
            dataset_description = raw_description raw,
            tableCount = length (raw_tables raw),
            lastUpdated = Math_max (map (\<lambda>table. getTime (created_at table)) (raw_tables raw))\<rparr>"
  by (simp add: datasetView_def Math_max_spread_def)

lemma datasetView_beyond:
  "argumentLimit < length (raw_tables raw) \<Longrightarrow>
     datasetView argumentLimit getTime projectKey datasetName raw = Inl RangeError"
  by (simp add: datasetView_def Math_max_spread_def)

lemma forEach_datasets:
  assumes "\<And>datasetName raw. (datasetName, raw) \<in> set entries \<Longrightarrow>
              js_get project datasetName = Own raw"
    and "map (\<lambda>(datasetName, raw). datasetView argumentLimit getTime projectKey datasetName raw)
           entries = map Inr views"
  shows "forEach (\<lambda>datasetName allDatasets.
             case js_get project datasetName of
               Own raw \<Rightarrow>
                 (case datasetView argumentLimit getTime projectKey datasetName raw of
                    Inl e \<Rightarrow> Inl e
                  | Inr view \<Rightarrow> Inr (allDatasets @ [view]))
             | Inherited \<Rightarrow> Inl TypeError
             | Undefined \<Rightarrow> Inl TypeError)
           (map fst entries) acc
         = Inr (acc @ views)"
  using assms
proof (induction entries arbitrary: acc views)
  case Nil
  then show ?case by simp
next
  case (Cons entry entries)
  obtain datasetName raw where entry: "entry = (datasetName, raw)"
    by (cases entry)
  have own: "js_get project datasetName = Own raw"
    using Cons.prems(1) [of datasetName raw] entry by simp
  from Cons.prems(2) entry obtain view rest where views: "views = view # rest"
    and view: "datasetView argumentLimit getTime projectKey datasetName raw = Inr view"
    and rest: "map (\<lambda>(datasetName, raw).
                  datasetView argumentLimit getTime projectKey datasetName raw) entries
               = map Inr rest"
    by (cases views) auto
  have "forEach (\<lambda>datasetName allDatasets.
             case js_get project datasetName of
               Own raw \<Rightarrow>
                 (case datasetView argumentLimit getTime projectKey datasetName raw of
                    Inl e \<Rightarrow> Inl e
                  | Inr view \<Rightarrow> Inr (allDatasets @ [view]))
             | Inherited \<Rightarrow> Inl TypeError
             | Undefined \<Rightarrow> Inl TypeError)
           (map fst entries) (acc @ [view])
         = Inr ((acc @ [view]) @ rest)"
    using Cons.prems(1) rest by (intro Cons.IH) auto
  with own view entry views show ?case
    by simp
qed

lemma forEach_datasets_RangeError:
  assumes "\<And>datasetName raw. (datasetName, raw) \<in> set entries \<Longrightarrow>
              js_get project datasetName = Own raw"
    and "\<exists>(datasetName, raw) \<in> set entries. argumentLimit < length (raw_tables raw)"
  shows "forEach (\<lambda>datasetName allDatasets.
             case js_get project datasetName of
               Own raw \<Rightarrow>
                 (case datasetView argumentLimit getTime projectKey datasetName raw of
                    Inl e \<Rightarrow> Inl e
                  | Inr view \<Rightarrow> Inr (allDatasets @ [view]))
             | Inherited \<Rightarrow> Inl TypeError
             | Undefined \<Rightarrow> Inl TypeError)
           (map fst entries) acc
         = Inl RangeError"
  using assms
proof (induction entries arbitrary: acc)
  case Nil
  then show ?case by simp
next
  case (Cons entry entries)
  obtain datasetName raw where entry: "entry = (datasetName, raw)"
    by (cases entry)
  have own: "js_get project datasetName = Own raw"
    using Cons.prems(1) [of datasetName raw] entry by simp
  show ?case
  proof (cases "argumentLimit < length (raw_tables raw)")
    case True
    then show ?thesis
      by (simp add: entry own datasetView_beyond)
  next
    case False
    then have later: "\<exists>(datasetName, raw) \<in> set entries. argumentLimit < length (raw_tables raw)"
      using Cons.prems(2) entry by auto
    have "\<And>acc. forEach (\<lambda>datasetName allDatasets.
             case js_get project datasetName of
               Own raw \<Rightarrow>
                 (case datasetView argumentLimit getTime projectKey datasetName raw of
                    Inl e \<Rightarrow> Inl e
                  | Inr view \<Rightarrow> Inr (allDatasets @ [view]))
             | Inherited \<Rightarrow> Inl TypeError
             | Undefined \<Rightarrow> Inl TypeError)
           (map fst entries) acc
         = Inl RangeError"
      using Cons.prems(1) later by (intro Cons.IH) auto
    with False show ?thesis
      by (simp add: entry own datasetView_within)
  qed
qed

text \<open>The views of one project when no spread goes beyond the limit.\<close>

lemma project_views:
  assumes "distinct_keys project"
    and "\<forall>(datasetName, raw) \<in> set project. length (raw_tables raw) \<le> argumentLimit"
  shows "forEach (\<lambda>datasetName allDatasets.
             case js_get project datasetName of
               Own raw \<Rightarrow>
                 (case datasetView argumentLimit getTime projectKey datasetName raw of
                    Inl e \<Rightarrow> Inl e
                  | Inr view \<Rightarrow> Inr (allDatasets @ [view]))
             | Inherited \<Rightarrow> Inl TypeError
             | Undefined \<Rightarrow> Inl TypeError)
           (Object_keys project) acc
         = Inr (acc @ map (\<lambda>(datasetName, raw).
              \<lparr>dataset_name = datasetName, dataset_project = projectKey,
               dataset_description = raw_description raw,
               tableCount = length (raw_tables raw),
               lastUpdated = Math_max (map (\<lambda>table. getTime (created_at table)) (raw_tables raw))\<rparr>)
             (Object_entries project))"
proof -
  have own: "\<And>datasetName raw. (datasetName, raw) \<in> set (Object_entries project) \<Longrightarrow>
      js_get project datasetName = Own raw"
    using assms(1) by (simp add: js_get_entry)
  have "map (\<lambda>(datasetName, raw). datasetView argumentLimit getTime projectKey datasetName raw)
          (Object_entries project)
        = map Inr (map (\<lambda>(datasetName, raw).
              \<lparr>dataset_name = datasetName, dataset_project = projectKey,
               dataset_description = raw_description raw,
               tableCount = length (raw_tables raw),
               lastUpdated = Math_max (map (\<lambda>table. getTime (created_at table)) (raw_tables raw))\<rparr>)
             (Object_entries project))"
    using assms(2) by (auto simp: set_Object_entries datasetView_within)
  with own show ?thesis
    unfolding Object_keys_def by (rule forEach_datasets)
qed

lemma project_RangeError:
  assumes "distinct_keys project"
    and "\<exists>(datasetName, raw) \<in> set project. argumentLimit < length (raw_tables raw)"
  shows "forEach (\<lambda>datasetName allDatasets.
             case js_get project datasetName of
               Own raw \<Rightarrow>
                 (case datasetView argumentLimit getTime projectKey datasetName raw of
                    Inl e \<Rightarrow> Inl e
                  | Inr view \<Rightarrow> Inr (allDatasets @ [view]))
             | Inherited \<Rightarrow> Inl TypeError
             | Undefined \<Rightarrow> Inl TypeError)
           (Object_keys project) acc
         = Inl RangeError"
proof -
  have own: "\<And>datasetName raw. (datasetName, raw) \<in> set (Object_entries project) \<Longrightarrow>
      js_get project datasetName = Own raw"
    using assms(1) by (simp add: js_get_entry)
  have "\<exists>(datasetName, raw) \<in> set (Object_entries project).
      argumentLimit < length (raw_tables raw)"
    using assms(2) by (simp add: set_Object_entries)
  with own show ?thesis
    unfolding Object_keys_def by (rule forEach_datasets_RangeError)
qed

lemma forEach_projects:
  assumes "\<And>projectKey project. (projectKey, project) \<in> set entries \<Longrightarrow>
              js_get catalog projectKey = Own project \<and> distinct_keys project
              \<and> (\<forall>(datasetName, raw) \<in> set project. length (raw_tables raw) \<le> argumentLimit)"
  shows "forEach (\<lambda>projectKey allDatasets.
          case js_get catalog projectKey of
            Own project \<Rightarrow>
              forEach (\<lambda>datasetName allDatasets.
                  case js_get project datasetName of
                    Own raw \<Rightarrow>
                      (case datasetView argumentLimit getTime projectKey datasetName raw of
                         Inl e \<Rightarrow> Inl e
                       | Inr view \<Rightarrow> Inr (allDatasets @ [view]))
                  | Inherited \<Rightarrow> Inl TypeError
                  | Undefined \<Rightarrow> Inl TypeError)
                (Object_keys project) allDatasets
          | Inherited \<Rightarrow> Inr allDatasets
          | Undefined \<Rightarrow> Inl TypeError)
        (map fst entries) acc
     = Inr (acc @ concat (map (\<lambda>(projectKey, project).
              map (\<lambda>(datasetName, raw).
                \<lparr>dataset_name = datasetName, dataset_project = projectKey,
                 dataset_description = raw_description raw,
                 tableCount = length (raw_tables raw),
                 lastUpdated =
                   Math_max (map (\<lambda>table. getTime (created_at table)) (raw_tables raw))\<rparr>)
              (Object_entries project))
            entries))"
  using assms
proof (induction entries arbitrary: acc)
  case Nil
  show ?case by simp
next
  case (Cons entry entries)
  obtain projectKey project where entry: "entry = (projectKey, project)"
    by (cases entry)
  have own: "js_get catalog projectKey = Own project" and dist: "distinct_keys project"
    and small: "\<forall>(datasetName, raw) \<in> set project. length (raw_tables raw) \<le> argumentLimit"
    using Cons.prems [of projectKey project] entry by simp_all
  note inner = project_views [OF dist small, of getTime projectKey acc]
  have "forEach (\<lambda>projectKey allDatasets.
          case js_get catalog projectKey of
            Own project \<Rightarrow>
              forEach (\<lambda>datasetName allDatasets.
                  case js_get project datasetName of
                    Own raw \<Rightarrow>
                      (case datasetView argumentLimit getTime projectKey datasetName raw of
                         Inl e \<Rightarrow> Inl e
                       | Inr view \<Rightarrow> Inr (allDatasets @ [view]))
                  | Inherited \<Rightarrow> Inl TypeError
                  | Undefined \<Rightarrow> Inl TypeError)
                (Object_keys project) allDatasets
          | Inherited \<Rightarrow> Inr allDatasets
          | Undefined \<Rightarrow> Inl TypeError)
        (map fst entries)
        (acc @ map (\<lambda>(datasetName, raw).
                \<lparr>dataset_name = datasetName, dataset_project = projectKey,
                 dataset_description = raw_description raw,
                 tableCount = length (raw_tables raw),
                 lastUpdated =
                   Math_max (map (\<lambda>table. getTime (created_at table)) (raw_tables raw))\<rparr>)
              (Object_entries project))
     = Inr ((acc @ map (\<lambda>(datasetName, raw).
                \<lparr>dataset_name = datasetName, dataset_project = projectKey,
                 dataset_description = raw_description raw,
                 tableCount = length (raw_tables raw),
                 lastUpdated =
                   Math_max (map (\<lambda>table. getTime (created_at table)) (raw_tables raw))\<rparr>)
              (Object_entries project))
            @ concat (map (\<lambda>(projectKey, project).
              map (\<lambda>(datasetName, raw).
                \<lparr>dataset_name = datasetName, dataset_project = projectKey,
                 dataset_description = raw_description raw,
                 tableCount = length (raw_tables raw),
                 lastUpdated =
                   Math_max (map (\<lambda>table. getTime (created_at table)) (raw_tables raw))\<rparr>)
              (Object_entries project))
            entries))"
  proof (rule Cons.IH)
    fix key obj
    assume "(key, obj) \<in> set entries"
    then show "js_get catalog key = Own obj \<and> distinct_keys obj
        \<and> (\<forall>(datasetName, raw) \<in> set obj. length (raw_tables raw) \<le> argumentLimit)"
      using Cons.prems [of key obj] by simp
  qed
  then show ?case
    by (simp add: entry own inner)
qed

lemma forEach_projects_RangeError:
  assumes "\<And>projectKey project. (projectKey, project) \<in> set entries \<Longrightarrow>
              js_get catalog projectKey = Own project \<and> distinct_keys project"
    and "\<exists>(projectKey, project) \<in> set entries.
           \<exists>(datasetName, raw) \<in> set project. argumentLimit < length (raw_tables raw)"
  shows "forEach (\<lambda>projectKey allDatasets.
          case js_get catalog projectKey of
            Own project \<Rightarrow>
              forEach (\<lambda>datasetName allDatasets.
                  case js_get project datasetName of
                    Own raw \<Rightarrow>
                      (case datasetView argumentLimit getTime projectKey datasetName raw of
                         Inl e \<Rightarrow> Inl e
                       | Inr view \<Rightarrow> Inr (allDatasets @ [view]))
                  | Inherited \<Rightarrow> Inl TypeError
                  | Undefined \<Rightarrow> Inl TypeError)
                (Object_keys project) allDatasets
          | Inherited \<Rightarrow> Inr allDatasets
          | Undefined \<Rightarrow> Inl TypeError)
        (map fst entries) acc
     = Inl RangeError"
  using assms
proof (induction entries arbitrary: acc)
  case Nil
  then show ?case by simp
next
  case (Cons entry entries)
  obtain projectKey project where entry: "entry = (projectKey, project)"
    by (cases entry)
  have own: "js_get catalog projectKey = Own project" and dist: "distinct_keys project"
    using Cons.prems(1) [of projectKey project] entry by simp_all
  show ?case
  proof (cases "\<exists>(datasetName, raw) \<in> set project. argumentLimit < length (raw_tables raw)")
    case True
    then show ?thesis
      using project_RangeError [OF dist True, of getTime projectKey acc]
      by (simp add: entry own)
  next
    case False
    then have small: "\<forall>(datasetName, raw) \<in> set project. length (raw_tables raw) \<le> argumentLimit"
      by (auto simp: not_less)
    from False have later: "\<exists>(projectKey, project) \<in> set entries.
           \<exists>(datasetName, raw) \<in> set project. argumentLimit < length (raw_tables raw)"
      using Cons.prems(2) entry by auto
    have "\<And>acc. forEach (\<lambda>projectKey allDatasets.
          case js_get catalog projectKey of
            Own project \<Rightarrow>
              forEach (\<lambda>datasetName allDatasets.
                  case js_get project datasetName of
                    Own raw \<Rightarrow>
                      (case datasetView argumentLimit getTime projectKey datasetName raw of
                         Inl e \<Rightarrow> Inl e
                       | Inr view \<Rightarrow> Inr (allDatasets @ [view]))
                  | Inherited \<Rightarrow> Inl TypeError
                  | Undefined \<Rightarrow> Inl TypeError)
                (Object_keys project) allDatasets
          | Inherited \<Rightarrow> Inr allDatasets
          | Undefined \<Rightarrow> Inl TypeError)
        (map fst entries) acc
     = Inl RangeError"
      using Cons.prems(1) later by (intro Cons.IH) auto
    then show ?thesis
      using project_views [OF dist small, of getTime projectKey acc]
      by (simp add: entry own)
  qed
qed

lemma getDatasets_within:
  assumes "well_formed catalog"
    and "\<forall>(projectKey, project) \<in> set catalog.
           \<forall>(datasetName, raw) \<in> set project. length (raw_tables raw) \<le> argumentLimit"
  shows "getDatasets argumentLimit getTime catalog =
       Inr (concat (map (\<lambda>(projectKey, project).
              map (\<lambda>(datasetName, raw).
                \<lparr>dataset_name = datasetName, dataset_project = projectKey,
                 dataset_description = raw_description raw,
                 tableCount = length (raw_tables raw),
                 lastUpdated =
                   Math_max (map (\<lambda>table. getTime (created_at table)) (raw_tables raw))\<rparr>)
              (Object_entries project))
            (Object_entries catalog)))"
proof -
  have "\<And>projectKey project. (projectKey, project) \<in> set (Object_entries catalog) \<Longrightarrow>
      js_get catalog projectKey = Own project \<and> distinct_keys project
      \<and> (\<forall>(datasetName, raw) \<in> set project. length (raw_tables raw) \<le> argumentLimit)"
    using assms well_formed_entry [of catalog] by (auto simp: set_Object_entries)
  then show ?thesis
    unfolding getDatasets_def getProjectKeys_def Let_def Object_keys_def [of catalog]
    using forEach_projects [of "Object_entries catalog" catalog argumentLimit getTime "[]"]
    by simp
qed

lemma getDatasets_RangeError:
  assumes "well_formed catalog"
    and "\<exists>(projectKey, project) \<in> set catalog.
           \<exists>(datasetName, raw) \<in> set project. argumentLimit < length (raw_tables raw)"
  shows "getDatasets argumentLimit getTime catalog = Inl RangeError"
proof -
  have own: "\<And>projectKey project. (projectKey, project) \<in> set (Object_entries catalog) \<Longrightarrow>
      js_get catalog projectKey = Own project \<and> distinct_keys project"
    using assms(1) by (simp add: well_formed_entry)
  have "\<exists>(projectKey, project) \<in> set (Object_entries catalog).
           \<exists>(datasetName, raw) \<in> set project. argumentLimit < length (raw_tables raw)"
    using assms(2) by (simp add: set_Object_entries)
  with own show ?thesis
    unfolding getDatasets_def getProjectKeys_def Let_def Object_keys_def [of catalog]
    by (rule forEach_projects_RangeError)
qed

lemma forEach_Set_add:
  "\<exists>names. forEach (\<lambda>datasetName allNames. Inr (Set_add datasetName allNames)) keys acc = Inr names
      \<and> set names = set acc \<union> set keys \<and> (distinct acc \<longrightarrow> distinct names)"
proof (induction keys arbitrary: acc)
  case Nil
  show ?case by simp
next
  case (Cons key keys)
  obtain names where
    "forEach (\<lambda>datasetName allNames. Inr (Set_add datasetName allNames)) keys (Set_add key acc)
       = Inr names"
    "set names = set (Set_add key acc) \<union> set keys"
    "distinct (Set_add key acc) \<longrightarrow> distinct names"
    using Cons.IH [of "Set_add key acc"] by blast
  then show ?case
    by (auto simp: Set_add_def split: if_splits)
qed

lemma forEach_names:
  assumes "\<And>projectKey project. (projectKey, project) \<in> set entries \<Longrightarrow>
              js_get catalog projectKey = Own project"
  shows "\<exists>names. forEach (\<lambda>projectKey allNames.
          case js_get catalog projectKey of
            Own project \<Rightarrow>
              forEach (\<lambda>datasetName allNames. Inr (Set_add datasetName allNames))
                (Object_keys project) allNames
          | Inherited \<Rightarrow> Inr allNames
          | Undefined \<Rightarrow> Inl TypeError)
        (map fst entries) acc = Inr names
      \<and> set names = set acc \<union> (\<Union>(projectKey, project) \<in> set entries. set (Object_keys project))
      \<and> (distinct acc \<longrightarrow> distinct names)"
  using assms
proof (induction entries arbitrary: acc)
  case Nil
  show ?case by simp
next
  case (Cons entry entries)
  obtain projectKey project where entry: "entry = (projectKey, project)"
    by (cases entry)
  have own: "js_get catalog projectKey = Own project"
    using Cons.prems [of projectKey project] entry by simp
  obtain mid where mid:
    "forEach (\<lambda>datasetName allNames. Inr (Set_add datasetName allNames)) (Object_keys project) acc
       = Inr mid"
    "set mid = set acc \<union> set (Object_keys project)"
    "distinct acc \<longrightarrow> distinct mid"
    using forEach_Set_add [of "Object_keys project" acc] by blast
  have "\<exists>names. forEach (\<lambda>projectKey allNames.
          case js_get catalog projectKey of
            Own project \<Rightarrow>
              forEach (\<lambda>datasetName allNames. Inr (Set_add datasetName allNames))
                (Object_keys project) allNames
          | Inherited \<Rightarrow> Inr allNames
          | Undefined \<Rightarrow> Inl TypeError)
        (map fst entries) mid = Inr names
      \<and> set names = set mid \<union> (\<Union>(projectKey, project) \<in> set entries. set (Object_keys project))
      \<and> (distinct mid \<longrightarrow> distinct names)"
    using Cons.prems by (intro Cons.IH) auto
  then obtain names where names:
    "forEach (\<lambda>projectKey allNames.
          case js_get catalog projectKey of
            Own project \<Rightarrow>
              forEach (\<lambda>datasetName allNames. Inr (Set_add datasetName allNames))
                (Object_keys project) allNames
          | Inherited \<Rightarrow> Inr allNames
          | Undefined \<Rightarrow> Inl TypeError)
        (map fst entries) mid = Inr names"
    "set names = set mid \<union> (\<Union>(projectKey, project) \<in> set entries. set (Object_keys project))"
    "distinct mid \<longrightarrow> distinct names"
    by blast
  from names(2) mid(2) have
    "set names = set acc \<union> (\<Union>(projectKey, project) \<in> set (entry # entries). set (Object_keys project))"
    by (auto simp: entry)
  moreover from names(3) mid(3) have "distinct acc \<longrightarrow> distinct names"
    by simp
  ultimately show ?case
    using names(1) by (simp add: entry own mid(1))
qed

lemma getDatasetByName_loop_first:
  assumes "\<And>projectKey project. (projectKey, project) \<in> set (before @ [(owner, found)]) \<Longrightarrow>
              js_get catalog projectKey = Own project"
    and "\<And>projectKey project. (projectKey, project) \<in> set before \<Longrightarrow>
              js_get project datasetName = Undefined"
    and "js_get found datasetName = Own raw"
  shows "getDatasetByName_loop catalog datasetName (map fst (before @ (owner, found) # after))
         = Inr \<lparr>full_name = datasetName, full_project = owner,
                full_description = Some (raw_description raw),
                full_tables = Some (raw_tables raw)\<rparr>"
  using assms
proof (induction before)
  case Nil
  then show ?case
    by simp
next
  case (Cons entry before)
  obtain projectKey project where entry: "entry = (projectKey, project)"
    by (cases entry)
  have "js_get catalog projectKey = Own project" "js_get project datasetName = Undefined"
    using Cons.prems(1) [of projectKey project] Cons.prems(2) [of projectKey project] entry
    by simp_all
  moreover have "getDatasetByName_loop catalog datasetName
      (map fst (before @ (owner, found) # after))
         = Inr \<lparr>full_name = datasetName, full_project = owner,
                full_description = Some (raw_description raw),
                full_tables = Some (raw_tables raw)\<rparr>"
    using Cons.prems by (intro Cons.IH) auto
  ultimately show ?case
    by (simp add: entry)
qed

lemma getDatasetByName_loop_not_found:
  assumes "\<And>projectKey project. (projectKey, project) \<in> set entries \<Longrightarrow>
              js_get catalog projectKey = Own project \<and> js_get project datasetName = Undefined"
  shows "getDatasetByName_loop catalog datasetName (map fst entries)
         = Inl (Error (''Dataset \"'' @ datasetName @ ''\" not found in any project''))"
  using assms
proof (induction entries)
  case Nil
  show ?case by simp
next
  case (Cons entry entries)
  obtain projectKey project where entry: "entry = (projectKey, project)"
    by (cases entry)
  have "js_get catalog projectKey = Own project" "js_get project datasetName = Undefined"
    using Cons.prems [of projectKey project] entry by simp_all
  moreover have "getDatasetByName_loop catalog datasetName (map fst entries)
         = Inl (Error (''Dataset \"'' @ datasetName @ ''\" not found in any project''))"
    using Cons.prems by (intro Cons.IH) auto
  ultimately show ?case
    by (simp add: entry)
qed

text \<open>
  What the lookup by name does on a well-formed catalog, as long as no inherited property
  is read: a name that no project holds and that \<^verbatim>\<open>Object.prototype\<close> does not hold either
  is reported as not found, and a name is found in the first project, in the order of
  \<^verbatim>\<open>Object.keys\<close>, that holds it when the projects before it read the name as
  \<^verbatim>\<open>undefined\<close>.
\<close>

lemma getDatasetByName_not_found:
  assumes "well_formed catalog"
    and "datasetName \<notin> set Object_prototype_keys"
    and "\<And>projectKey project. (projectKey, project) \<in> set catalog \<Longrightarrow>
            datasetName \<notin> set (Object_keys project)"
  shows "getDatasetByName catalog datasetName
         = Inl (Error (''Dataset \"'' @ datasetName @ ''\" not found in any project''))"
proof -
  have "\<And>projectKey project. (projectKey, project) \<in> set (Object_entries catalog) \<Longrightarrow>
      js_get catalog projectKey = Own project \<and> js_get project datasetName = Undefined"
    using assms well_formed_entry [of catalog]
    by (auto simp: js_get_Undefined_iff set_Object_entries)
  then show ?thesis
    unfolding getDatasetByName_def getProjectKeys_def Object_keys_def [of catalog]
    by (rule getDatasetByName_loop_not_found)
qed

lemma getDatasetByName_first_project:
  assumes "well_formed catalog"
    and "Object_entries catalog = before @ (owner, found) # after"
    and "(datasetName, raw) \<in> set found"
    and "\<And>projectKey project. (projectKey, project) \<in> set before \<Longrightarrow>
            datasetName \<notin> set (Object_keys project)"
    and "before = [] \<or> datasetName \<notin> set Object_prototype_keys"
  shows "getDatasetByName catalog datasetName
         = Inr \<lparr>full_name = datasetName, full_project = owner,
                full_description = Some (raw_description raw),
                full_tables = Some (raw_tables raw)\<rparr>"
proof -
  have own: "\<And>projectKey project. (projectKey, project) \<in> set (before @ [(owner, found)]) \<Longrightarrow>
      js_get catalog projectKey = Own project"
    using assms(1,2) well_formed_entry [of catalog] by auto
  have missing: "\<And>projectKey project. (projectKey, project) \<in> set before \<Longrightarrow>
      js_get project datasetName = Undefined"
    using assms(4,5) by (auto simp: js_get_Undefined_iff)
  have "distinct_keys found"
    using assms(1,2) well_formed_entry [of catalog owner found] by simp
  then have "js_get found datasetName = Own raw"
    using assms(3) by (rule js_get_own)
  with own missing show ?thesis
    unfolding getDatasetByName_def getProjectKeys_def Object_keys_def [of catalog] assms(2)
    by (intro getDatasetByName_loop_first) auto
qed

lemma map_throwing_datasets:
  assumes "\<And>datasetName raw. (datasetName, raw) \<in> set entries \<Longrightarrow>
              js_get project datasetName = Own raw \<and> length (raw_tables raw) \<le> argumentLimit"
  shows "map_throwing (\<lambda>datasetName.
              case js_get project datasetName of
                Own raw \<Rightarrow>
                  (case Math_max_spread argumentLimit
                          (map (\<lambda>table. getTime (created_at table)) (raw_tables raw)) of
                     Inl e \<Rightarrow> Inl e
                   | Inr latest \<Rightarrow>
                       Inr \<lparr>rj_name = datasetName,
                            rj_description = raw_description raw,
                            rj_tableCount = length (raw_tables raw),
                            rj_lastUpdated = latest\<rparr>)
              | Inherited \<Rightarrow> Inl TypeError
              | Undefined \<Rightarrow> Inl TypeError)
            (map fst entries)
         = Inr (map (\<lambda>(datasetName, raw).
                  \<lparr>rj_name = datasetName,
                   rj_description = raw_description raw,
                   rj_tableCount = length (raw_tables raw),
                   rj_lastUpdated =
                     Math_max (map (\<lambda>table. getTime (created_at table)) (raw_tables raw))\<rparr>)
                entries)"
  using assms
proof (induction entries)
  case Nil
  show ?case by simp
next
  case (Cons entry entries)
  obtain datasetName raw where entry: "entry = (datasetName, raw)"
    by (cases entry)
  have own: "js_get project datasetName = Own raw"
    and small: "length (raw_tables raw) \<le> argumentLimit"
    using Cons.prems [of datasetName raw] entry by simp_all
  have "map_throwing (\<lambda>datasetName.
              case js_get project datasetName of
                Own raw \<Rightarrow>
                  (case Math_max_spread argumentLimit
                          (map (\<lambda>table. getTime (created_at table)) (raw_tables raw)) of
                     Inl e \<Rightarrow> Inl e
                   | Inr latest \<Rightarrow>
                       Inr \<lparr>rj_name = datasetName,
                            rj_description = raw_description raw,
                            rj_tableCount = length (raw_tables raw),
                            rj_lastUpdated = latest\<rparr>)
              | Inherited \<Rightarrow> Inl TypeError
              | Undefined \<Rightarrow> Inl TypeError)
            (map fst entries)
         = Inr (map (\<lambda>(datasetName, raw).
                  \<lparr>rj_name = datasetName,
                   rj_description = raw_description raw,
                   rj_tableCount = length (raw_tables raw),
                   rj_lastUpdated =
                     Math_max (map (\<lambda>table. getTime (created_at table)) (raw_tables raw))\<rparr>)
                entries)"
  proof (rule Cons.IH)
    fix key r
    assume "(key, r) \<in> set entries"
    then show "js_get project key = Own r \<and> length (raw_tables r) \<le> argumentLimit"
      using Cons.prems [of key r] by simp
  qed
  with own small entry show ?case
    by (simp add: Math_max_spread_def)
qed

lemma map_throwing_datasets_RangeError:
  assumes "\<And>datasetName raw. (datasetName, raw) \<in> set entries \<Longrightarrow>
              js_get project datasetName = Own raw"
    and "\<exists>(datasetName, raw) \<in> set entries. argumentLimit < length (raw_tables raw)"
  shows "map_throwing (\<lambda>datasetName.
              case js_get project datasetName of
                Own raw \<Rightarrow>
                  (case Math_max_spread argumentLimit
                          (map (\<lambda>table. getTime (created_at table)) (raw_tables raw)) of
                     Inl e \<Rightarrow> Inl e
                   | Inr latest \<Rightarrow>
                       Inr \<lparr>rj_name = datasetName,
                            rj_description = raw_description raw,
                            rj_tableCount = length (raw_tables raw),
                            rj_lastUpdated = latest\<rparr>)
              | Inherited \<Rightarrow> Inl TypeError
              | Undefined \<Rightarrow> Inl TypeError)
            (map fst entries)
         = Inl RangeError"
  using assms
proof (induction entries)
  case Nil
  then show ?case by simp
next
  case (Cons entry entries)
  obtain datasetName raw where entry: "entry = (datasetName, raw)"
    by (cases entry)
  have own: "js_get project datasetName = Own raw"
    using Cons.prems(1) [of datasetName raw] entry by simp
  show ?case
  proof (cases "argumentLimit < length (raw_tables raw)")
    case True
    then show ?thesis
      by (simp add: entry own Math_max_spread_def)
  next
    case False
    then have later: "\<exists>(datasetName, raw) \<in> set entries. argumentLimit < length (raw_tables raw)"
      using Cons.prems(2) entry by auto
    have "map_throwing (\<lambda>datasetName.
              case js_get project datasetName of
                Own raw \<Rightarrow>
                  (case Math_max_spread argumentLimit
                          (map (\<lambda>table. getTime (created_at table)) (raw_tables raw)) of
                     Inl e \<Rightarrow> Inl e
                   | Inr latest \<Rightarrow>
                       Inr \<lparr>rj_name = datasetName,
                            rj_description = raw_description raw,
                            rj_tableCount = length (raw_tables raw),
                            rj_lastUpdated = latest\<rparr>)
              | Inherited \<Rightarrow> Inl TypeError
              | Undefined \<Rightarrow> Inl TypeError)
            (map fst entries)
         = Inl RangeError"
      using Cons.prems(1) later by (intro Cons.IH) auto
    with False show ?thesis
      by (simp add: entry own Math_max_spread_def)
  qed
qed

lemma getDatasets_rj_iplanrio_within:
  assumes "well_formed catalog" and "(''rj-iplanrio'', project) \<in> set catalog"
    and "\<forall>(datasetName, raw) \<in> set project. length (raw_tables raw) \<le> argumentLimit"
  shows "getDatasets_rj_iplanrio argumentLimit getTime catalog
         = Inr (map (\<lambda>(datasetName, raw).
                  \<lparr>rj_name = datasetName,
                   rj_description = raw_description raw,
                   rj_tableCount = length (raw_tables raw),
                   rj_lastUpdated =
                     Math_max (map (\<lambda>table. getTime (created_at table)) (raw_tables raw))\<rparr>)
                (Object_entries project))"
proof -
  have own: "js_get catalog ''rj-iplanrio'' = Own project" and dist: "distinct_keys project"
    using assms(1,2) well_formed_project [of catalog "''rj-iplanrio''" project] by simp_all
  have "\<And>datasetName raw. (datasetName, raw) \<in> set (Object_entries project) \<Longrightarrow>
      js_get project datasetName = Own raw \<and> length (raw_tables raw) \<le> argumentLimit"
    using dist assms(3) by (auto simp: js_get_entry set_Object_entries)
  then show ?thesis
    unfolding getDatasets_rj_iplanrio_def own Object_keys_def
    by (simp add: map_throwing_datasets)
qed

lemma getDatasets_rj_iplanrio_RangeError:
  assumes "well_formed catalog" and "(''rj-iplanrio'', project) \<in> set catalog"
    and "\<exists>(datasetName, raw) \<in> set project. argumentLimit < length (raw_tables raw)"
  shows "getDatasets_rj_iplanrio argumentLimit getTime catalog = Inl RangeError"
proof -
  have own: "js_get catalog ''rj-iplanrio'' = Own project" and dist: "distinct_keys project"
    using assms(1,2) well_formed_project [of catalog "''rj-iplanrio''" project] by simp_all
  have entries: "\<And>datasetName raw. (datasetName, raw) \<in> set (Object_entries project) \<Longrightarrow>
      js_get project datasetName = Own raw"
    using dist by (simp add: js_get_entry)
  have "\<exists>(datasetName, raw) \<in> set (Object_entries project).
      argumentLimit < length (raw_tables raw)"
    using assms(3) by (simp add: set_Object_entries)
  with entries show ?thesis
    unfolding getDatasets_rj_iplanrio_def own Object_keys_def
    by (simp add: map_throwing_datasets_RangeError)
qed

lemma getDatasets_rj_iplanrio_missing:
  "''rj-iplanrio'' \<notin> set (Object_keys catalog) \<Longrightarrow>
     getDatasets_rj_iplanrio argumentLimit getTime catalog = Inl TypeError"
proof -
  assume "''rj-iplanrio'' \<notin> set (Object_keys catalog)"
  moreover have "''rj-iplanrio'' \<notin> set Object_prototype_keys"
    by (simp add: Object_prototype_keys_def)
  ultimately have "js_get catalog ''rj-iplanrio'' = Undefined"
    by (simp add: js_get_Undefined_iff)
  then show ?thesis
    by (simp add: getDatasets_rj_iplanrio_def)
qed

section \<open>Listing the dataset names\<close>

text \<open>
  Claim C9. For every well-formed catalog document, getDatasetNames returns exactly the
  dataset names that occur under at least one project key: every returned name occurs under
  some project, every dataset name of every project is returned, and no name is returned
  twice.
\<close>

theorem getDatasetNames_exact:
  "well_formed catalog \<Longrightarrow>
     \<exists>names. getDatasetNames catalog = Inr names
       \<and> distinct names
       \<and> set names = (\<Union>(projectKey, project) \<in> set catalog. set (Object_keys project))
       \<and> (\<forall>datasetName. datasetName \<in> set names \<longleftrightarrow>
             (\<exists>projectKey project. (projectKey, project) \<in> set catalog
                \<and> datasetName \<in> set (Object_keys project)))"
proof -
  assume wf: "well_formed catalog"
  then have own: "\<And>projectKey project. (projectKey, project) \<in> set (Object_entries catalog) \<Longrightarrow>
      js_get catalog projectKey = Own project"
    by (simp add: well_formed_entry)
  have "\<exists>names. getDatasetNames catalog = Inr names
      \<and> set names = set [] \<union> (\<Union>(projectKey, project) \<in> set (Object_entries catalog).
                                set (Object_keys project))
      \<and> (distinct [] \<longrightarrow> distinct names)"
    using forEach_names [of "Object_entries catalog" catalog "[]"] own
    by (simp add: getDatasetNames_def getProjectKeys_def Object_keys_def [of catalog])
  then obtain names where names:
    "getDatasetNames catalog = Inr names"
    "set names = (\<Union>(projectKey, project) \<in> set catalog. set (Object_keys project))"
    "distinct names"
    by (auto simp: set_Object_entries)
  then have "\<forall>datasetName. datasetName \<in> set names \<longleftrightarrow>
      (\<exists>projectKey project. (projectKey, project) \<in> set catalog
          \<and> datasetName \<in> set (Object_keys project))"
    by auto
  with names show ?thesis
    by simp
qed

theorem getDatasetNames_exact_witness:
  "well_formed
     [(''p1'', [(''sales'', \<lparr>raw_description = ''s'', raw_tables = []\<rparr>),
                (''health'', \<lparr>raw_description = ''h'', raw_tables = []\<rparr>)]),
      (''p2'', [(''roads'', \<lparr>raw_description = ''r'', raw_tables = []\<rparr>),
                (''sales'', \<lparr>raw_description = ''t'', raw_tables = []\<rparr>)])]
   \<and> getDatasetNames
     [(''p1'', [(''sales'', \<lparr>raw_description = ''s'', raw_tables = []\<rparr>),
                (''health'', \<lparr>raw_description = ''h'', raw_tables = []\<rparr>)]),
      (''p2'', [(''roads'', \<lparr>raw_description = ''r'', raw_tables = []\<rparr>),
                (''sales'', \<lparr>raw_description = ''t'', raw_tables = []\<rparr>)])]
     = Inr [''sales'', ''health'', ''roads'']
   \<and> distinct [''sales'', ''health'', ''roads'']"
proof -
  let ?catalog =
    "[(''p1'', [(''sales'', \<lparr>raw_description = ''s'', raw_tables = []\<rparr>),
                (''health'', \<lparr>raw_description = ''h'', raw_tables = []\<rparr>)]),
      (''p2'', [(''roads'', \<lparr>raw_description = ''r'', raw_tables = []\<rparr>),
                (''sales'', \<lparr>raw_description = ''t'', raw_tables = []\<rparr>)])]"
  have wf: "well_formed ?catalog"
    by (simp add: well_formed_def distinct_keys_def)
  have result: "getDatasetNames ?catalog = Inr [''sales'', ''health'', ''roads'']"
    by (simp add: getDatasetNames_def getProjectKeys_def Object_keys_def Object_entries_def
        is_array_index_def is_digit_def js_get_def Set_add_def)
  from getDatasetNames_exact [OF wf] obtain names
    where "getDatasetNames ?catalog = Inr names" and "distinct names"
    by blast
  with result have "distinct [''sales'', ''health'', ''roads'']"
    by simp
  with wf result show ?thesis
    by simp
qed

section \<open>Datasets without tables\<close>

text \<open>
  Claim C2, as stated: for a catalog in which some dataset has an empty tables list,
  getDatasets fails when computing that dataset's lastUpdated instead of returning a view
  for it. On the catalog with the single project p and its single dataset d without tables
  the function does not fail: it returns the view of d, with tableCount 0 and lastUpdated
  equal to the result of \<^verbatim>\<open>Math.max\<close> without arguments. The argument limit and the date
  parser of the runtime are left unspecified here: without tables no date is parsed and no
  argument is passed.
\<close>

theorem getDatasets_empty_tables_counterexample:
  "\<not> isl (getDatasets undefined undefined
            [(''p'', [(''d'', \<lparr>raw_description = ''x'', raw_tables = []\<rparr>)])])
   \<and> getDatasets undefined undefined
        [(''p'', [(''d'', \<lparr>raw_description = ''x'', raw_tables = []\<rparr>)])]
       = Inr [\<lparr>dataset_name = ''d'', dataset_project = ''p'', dataset_description = ''x'',
               tableCount = 0, lastUpdated = NegInfinity\<rparr>]"
  by (simp add: getDatasets_def getProjectKeys_def Object_keys_def Object_entries_def
      is_array_index_def is_digit_def js_get_def datasetView_def Math_max_spread_def Math_max_def)

text \<open>
  Claim C2, amended. For every well-formed catalog document in which some dataset has an
  empty tables list, computing that dataset's lastUpdated does not fail: \<^verbatim>\<open>Math.max\<close> of no
  arguments is \<^verbatim>\<open>-Infinity\<close>, and the view built for the dataset has tableCount 0 and that
  lastUpdated. When no tables list of the catalog is longer than the argument limit of the
  engine, getDatasets returns that view among one view per dataset, projects and datasets
  in the order of \<^verbatim>\<open>Object.keys\<close>; when some tables list is longer, getDatasets fails with
  the engine's \<^verbatim>\<open>RangeError\<close>. The earlier getDatasets, which reads the single project
  rj-iplanrio, does the same for the datasets of that project.
\<close>

theorem getDatasets_empty_tables:
  assumes "well_formed catalog"
    and "(projectKey, project) \<in> set catalog"
    and "(datasetName, raw) \<in> set project"
    and "raw_tables raw = []"
  shows
    "datasetView argumentLimit getTime projectKey datasetName raw
       = Inr \<lparr>dataset_name = datasetName, dataset_project = projectKey,
              dataset_description = raw_description raw,
              tableCount = 0, lastUpdated = NegInfinity\<rparr>
     \<and> ((\<forall>(p, datasets) \<in> set catalog. \<forall>(d, r) \<in> set datasets.
            length (raw_tables r) \<le> argumentLimit) \<longrightarrow>
          (\<exists>views. getDatasets argumentLimit getTime catalog = Inr views
             \<and> views = concat (map (\<lambda>(p, datasets).
                    map (\<lambda>(d, r).
                      \<lparr>dataset_name = d, dataset_project = p,
                       dataset_description = raw_description r,
                       tableCount = length (raw_tables r),
                       lastUpdated =
                         Math_max (map (\<lambda>table. getTime (created_at table)) (raw_tables r))\<rparr>)
                    (Object_entries datasets))
                  (Object_entries catalog))
             \<and> \<lparr>dataset_name = datasetName, dataset_project = projectKey,
                 dataset_description = raw_description raw,
                 tableCount = 0, lastUpdated = NegInfinity\<rparr> \<in> set views))
     \<and> (\<not> (\<forall>(p, datasets) \<in> set catalog. \<forall>(d, r) \<in> set datasets.
              length (raw_tables r) \<le> argumentLimit) \<longrightarrow>
          getDatasets argumentLimit getTime catalog = Inl RangeError)
     \<and> (projectKey = ''rj-iplanrio'' \<longrightarrow>
          ((\<forall>(d, r) \<in> set project. length (raw_tables r) \<le> argumentLimit) \<longrightarrow>
             (\<exists>views. getDatasets_rj_iplanrio argumentLimit getTime catalog = Inr views
                \<and> views = map (\<lambda>(d, r).
                      \<lparr>rj_name = d, rj_description = raw_description r,
                       rj_tableCount = length (raw_tables r),
                       rj_lastUpdated =
                         Math_max (map (\<lambda>table. getTime (created_at table)) (raw_tables r))\<rparr>)
                    (Object_entries project)
                \<and> \<lparr>rj_name = datasetName, rj_description = raw_description raw,
                    rj_tableCount = 0, rj_lastUpdated = NegInfinity\<rparr> \<in> set views))
          \<and> (\<not> (\<forall>(d, r) \<in> set project. length (raw_tables r) \<le> argumentLimit) \<longrightarrow>
               getDatasets_rj_iplanrio argumentLimit getTime catalog = Inl RangeError))"
proof (intro conjI impI)
  show "datasetView argumentLimit getTime projectKey datasetName raw
       = Inr \<lparr>dataset_name = datasetName, dataset_project = projectKey,
              dataset_description = raw_description raw,
              tableCount = 0, lastUpdated = NegInfinity\<rparr>"
    using assms(4) by (simp add: datasetView_def Math_max_spread_def Math_max_no_arguments)
next
  assume small: "\<forall>(p, datasets) \<in> set catalog. \<forall>(d, r) \<in> set datasets.
      length (raw_tables r) \<le> argumentLimit"
  let ?views = "concat (map (\<lambda>(p, datasets).
                    map (\<lambda>(d, r).
                      \<lparr>dataset_name = d, dataset_project = p,
                       dataset_description = raw_description r,
                       tableCount = length (raw_tables r),
                       lastUpdated =
                         Math_max (map (\<lambda>table. getTime (created_at table)) (raw_tables r))\<rparr>)
                    (Object_entries datasets))
                  (Object_entries catalog))"
  have result: "getDatasets argumentLimit getTime catalog = Inr ?views"
    using assms(1) small by (rule getDatasets_within)
  have "\<lparr>dataset_name = datasetName, dataset_project = projectKey,
         dataset_description = raw_description raw,
         tableCount = length (raw_tables raw),
         lastUpdated = Math_max (map (\<lambda>table. getTime (created_at table)) (raw_tables raw))\<rparr>
        \<in> set ?views"
    using assms(2,3) by (force simp: set_Object_entries)
  then have "\<lparr>dataset_name = datasetName, dataset_project = projectKey,
         dataset_description = raw_description raw,
         tableCount = 0, lastUpdated = NegInfinity\<rparr> \<in> set ?views"
    using assms(4) by (simp add: Math_max_no_arguments)
  with result show "\<exists>views. getDatasets argumentLimit getTime catalog = Inr views
      \<and> views = ?views
      \<and> \<lparr>dataset_name = datasetName, dataset_project = projectKey,
          dataset_description = raw_description raw,
          tableCount = 0, lastUpdated = NegInfinity\<rparr> \<in> set views"
    by blast
next
  assume "\<not> (\<forall>(p, datasets) \<in> set catalog. \<forall>(d, r) \<in> set datasets.
      length (raw_tables r) \<le> argumentLimit)"
  then have "\<exists>(p, datasets) \<in> set catalog. \<exists>(d, r) \<in> set datasets.
      argumentLimit < length (raw_tables r)"
    by (simp add: case_prod_beta not_le)
  with assms(1) show "getDatasets argumentLimit getTime catalog = Inl RangeError"
    by (rule getDatasets_RangeError)
next
  assume rj: "projectKey = ''rj-iplanrio''"
    and small: "\<forall>(d, r) \<in> set project. length (raw_tables r) \<le> argumentLimit"
  let ?views = "map (\<lambda>(d, r).
                      \<lparr>rj_name = d, rj_description = raw_description r,
                       rj_tableCount = length (raw_tables r),
                       rj_lastUpdated =
                         Math_max (map (\<lambda>table. getTime (created_at table)) (raw_tables r))\<rparr>)
                    (Object_entries project)"
  have result: "getDatasets_rj_iplanrio argumentLimit getTime catalog = Inr ?views"
    using assms(1) assms(2) [unfolded rj] small by (rule getDatasets_rj_iplanrio_within)
  have "\<lparr>rj_name = datasetName, rj_description = raw_description raw,
         rj_tableCount = length (raw_tables raw),
         rj_lastUpdated = Math_max (map (\<lambda>table. getTime (created_at table)) (raw_tables raw))\<rparr>
        \<in> set ?views"
    using assms(3) by (force simp: set_Object_entries)
  then have "\<lparr>rj_name = datasetName, rj_description = raw_description raw,
         rj_tableCount = 0, rj_lastUpdated = NegInfinity\<rparr> \<in> set ?views"
    using assms(4) by (simp add: Math_max_no_arguments)
  with result show "\<exists>views. getDatasets_rj_iplanrio argumentLimit getTime catalog = Inr views
      \<and> views = ?views
      \<and> \<lparr>rj_name = datasetName, rj_description = raw_description raw,
          rj_tableCount = 0, rj_lastUpdated = NegInfinity\<rparr> \<in> set views"
    by blast
next
  assume rj: "projectKey = ''rj-iplanrio''"
    and "\<not> (\<forall>(d, r) \<in> set project. length (raw_tables r) \<le> argumentLimit)"
  then have "\<exists>(d, r) \<in> set project. argumentLimit < length (raw_tables r)"
    by (simp add: case_prod_beta not_le)
  with assms(1) assms(2) [unfolded rj]
  show "getDatasets_rj_iplanrio argumentLimit getTime catalog = Inl RangeError"
    by (rule getDatasets_rj_iplanrio_RangeError)
qed

theorem getDatasets_empty_tables_witness:
  "\<forall>argumentLimit getTime.
     well_formed
       [(''rj-iplanrio'',
          [(''empty'', \<lparr>raw_description = ''e'', raw_tables = []\<rparr>),
           (''also_empty'', \<lparr>raw_description = ''a'', raw_tables = []\<rparr>)])]
     \<and> getDatasets argumentLimit getTime
       [(''rj-iplanrio'',
          [(''empty'', \<lparr>raw_description = ''e'', raw_tables = []\<rparr>),
           (''also_empty'', \<lparr>raw_description = ''a'', raw_tables = []\<rparr>)])]
       = Inr [\<lparr>dataset_name = ''empty'', dataset_project = ''rj-iplanrio'',
                dataset_description = ''e'', tableCount = 0, lastUpdated = NegInfinity\<rparr>,
              \<lparr>dataset_name = ''also_empty'', dataset_project = ''rj-iplanrio'',
                dataset_description = ''a'', tableCount = 0, lastUpdated = NegInfinity\<rparr>]
     \<and> getDatasets_rj_iplanrio argumentLimit getTime
       [(''rj-iplanrio'',
          [(''empty'', \<lparr>raw_description = ''e'', raw_tables = []\<rparr>),
           (''also_empty'', \<lparr>raw_description = ''a'', raw_tables = []\<rparr>)])]
       = Inr [\<lparr>rj_name = ''empty'', rj_description = ''e'', rj_tableCount = 0,
                rj_lastUpdated = NegInfinity\<rparr>,
              \<lparr>rj_name = ''also_empty'', rj_description = ''a'', rj_tableCount = 0,
                rj_lastUpdated = NegInfinity\<rparr>]
     \<and> well_formed
       [(''rj-iplanrio'',
          [(''empty'', \<lparr>raw_description = ''e'', raw_tables = []\<rparr>),
           (''big'', \<lparr>raw_description = ''b'', raw_tables =
              replicate (Suc argumentLimit)
                \<lparr>table_name = ''t'', created_at = ''2024-01-15T10:30:00.000Z'', schema = []\<rparr>\<rparr>)])]
     \<and> getDatasets argumentLimit getTime
       [(''rj-iplanrio'',
          [(''empty'', \<lparr>raw_description = ''e'', raw_tables = []\<rparr>),
           (''big'', \<lparr>raw_description = ''b'', raw_tables =
              replicate (Suc argumentLimit)
                \<lparr>table_name = ''t'', created_at = ''2024-01-15T10:30:00.000Z'', schema = []\<rparr>\<rparr>)])]
       = Inl RangeError
     \<and> getDatasets_rj_iplanrio argumentLimit getTime
       [(''rj-iplanrio'',
          [(''empty'', \<lparr>raw_description = ''e'', raw_tables = []\<rparr>),
           (''big'', \<lparr>raw_description = ''b'', raw_tables =
              replicate (Suc argumentLimit)
                \<lparr>table_name = ''t'', created_at = ''2024-01-15T10:30:00.000Z'', schema = []\<rparr>\<rparr>)])]
       = Inl RangeError"
proof (intro allI)
  fix argumentLimit :: nat and getTime :: "string \<Rightarrow> js_number"
  let ?empty = "\<lparr>raw_description = ''e'', raw_tables = []\<rparr>"
  let ?small = "[(''rj-iplanrio'',
          [(''empty'', ?empty),
           (''also_empty'', \<lparr>raw_description = ''a'', raw_tables = []\<rparr>)])]"
  let ?datasets = "[(''empty'', ?empty),
           (''big'', \<lparr>raw_description = ''b'', raw_tables =
              replicate (Suc argumentLimit)
                \<lparr>table_name = ''t'', created_at = ''2024-01-15T10:30:00.000Z'', schema = []\<rparr>\<rparr>)]"
  let ?large = "[(''rj-iplanrio'', ?datasets)]"
  have wf_small: "well_formed ?small" and wf_large: "well_formed ?large"
    by (simp_all add: well_formed_def distinct_keys_def)
  have entries_small: "Object_entries ?small = ?small"
    "Object_entries [(''empty'', ?empty),
       (''also_empty'', \<lparr>raw_description = ''a'', raw_tables = []\<rparr>)]
     = [(''empty'', ?empty), (''also_empty'', \<lparr>raw_description = ''a'', raw_tables = []\<rparr>)]"
    by (simp_all add: Object_entries_def is_array_index_def is_digit_def)
  note small = getDatasets_empty_tables [OF wf_small, of "''rj-iplanrio''" _ "''empty''" ?empty
      argumentLimit getTime]
  note large = getDatasets_empty_tables [OF wf_large, of "''rj-iplanrio''" ?datasets "''empty''"
      ?empty argumentLimit getTime]
  have "getDatasets argumentLimit getTime ?small
       = Inr [\<lparr>dataset_name = ''empty'', dataset_project = ''rj-iplanrio'',
                dataset_description = ''e'', tableCount = 0, lastUpdated = NegInfinity\<rparr>,
              \<lparr>dataset_name = ''also_empty'', dataset_project = ''rj-iplanrio'',
                dataset_description = ''a'', tableCount = 0, lastUpdated = NegInfinity\<rparr>]"
    and "getDatasets_rj_iplanrio argumentLimit getTime ?small
       = Inr [\<lparr>rj_name = ''empty'', rj_description = ''e'', rj_tableCount = 0,
                rj_lastUpdated = NegInfinity\<rparr>,
              \<lparr>rj_name = ''also_empty'', rj_description = ''a'', rj_tableCount = 0,
                rj_lastUpdated = NegInfinity\<rparr>]"
    using small by (simp_all add: entries_small Math_max_no_arguments)
  moreover have "getDatasets argumentLimit getTime ?large = Inl RangeError"
    and "getDatasets_rj_iplanrio argumentLimit getTime ?large = Inl RangeError"
    using large by simp_all
  ultimately show "well_formed ?small
     \<and> getDatasets argumentLimit getTime ?small
       = Inr [\<lparr>dataset_name = ''empty'', dataset_project = ''rj-iplanrio'',
                dataset_description = ''e'', tableCount = 0, lastUpdated = NegInfinity\<rparr>,
              \<lparr>dataset_name = ''also_empty'', dataset_project = ''rj-iplanrio'',
                dataset_description = ''a'', tableCount = 0, lastUpdated = NegInfinity\<rparr>]
     \<and> getDatasets_rj_iplanrio argumentLimit getTime ?small
       = Inr [\<lparr>rj_name = ''empty'', rj_description = ''e'', rj_tableCount = 0,
                rj_lastUpdated = NegInfinity\<rparr>,
              \<lparr>rj_name = ''also_empty'', rj_description = ''a'', rj_tableCount = 0,
                rj_lastUpdated = NegInfinity\<rparr>]
     \<and> well_formed ?large
     \<and> getDatasets argumentLimit getTime ?large = Inl RangeError
     \<and> getDatasets_rj_iplanrio argumentLimit getTime ?large = Inl RangeError"
    using wf_small wf_large by simp
qed

section \<open>Looking a dataset up by name\<close>

text \<open>
  Claim C3 says that getDatasetByName raises its not-found error for every name that is not
  a dataset name under any project key, and never returns a partially populated object.
  Evaluated on a catalog whose only dataset is sales and on the name constructor, which
  every object inherits: the function returns an object tagged with the first project, with
  neither description nor tables.
\<close>

theorem getDatasetByName_inherited_name:
  "''constructor'' \<notin> set (Object_keys [(''sales'', \<lparr>raw_description = ''s'', raw_tables = []\<rparr>)])
   \<and> getDatasetByName
        [(''rj-iplanrio'', [(''sales'', \<lparr>raw_description = ''s'', raw_tables = []\<rparr>)])]
        ''constructor''
      = Inr \<lparr>full_name = ''constructor'', full_project = ''rj-iplanrio'',
             full_description = None, full_tables = None\<rparr>"
  by (simp add: getDatasetByName_def getProjectKeys_def Object_keys_def Object_entries_def
      is_array_index_def is_digit_def js_get_def Object_prototype_keys_def)

text \<open>
  Claim C5 says that when the same dataset name exists under two project keys,
  getDatasetByName returns the dataset of the first of them in the order of getProjectKeys,
  with that project's key attached. Evaluated on a well-formed catalog in which the dataset
  toString exists under p1 and p2 and an earlier project p0 has no such dataset: the
  function returns an object tagged p0, with neither description nor tables, because p0
  inherits a property of that name.
\<close>

theorem getDatasetByName_earlier_project_inherits:
  "well_formed
     [(''p0'', [(''sales'', \<lparr>raw_description = ''s'', raw_tables = []\<rparr>)]),
      (''p1'', [(''toString'', \<lparr>raw_description = ''first'', raw_tables = []\<rparr>)]),
      (''p2'', [(''toString'', \<lparr>raw_description = ''second'', raw_tables = []\<rparr>)])]
   \<and> getDatasetByName
     [(''p0'', [(''sales'', \<lparr>raw_description = ''s'', raw_tables = []\<rparr>)]),
      (''p1'', [(''toString'', \<lparr>raw_description = ''first'', raw_tables = []\<rparr>)]),
      (''p2'', [(''toString'', \<lparr>raw_description = ''second'', raw_tables = []\<rparr>)])]
     ''toString''
     = Inr \<lparr>full_name = ''toString'', full_project = ''p0'',
            full_description = None, full_tables = None\<rparr>"
  by (simp add: well_formed_def distinct_keys_def getDatasetByName_def getProjectKeys_def
      Object_keys_def Object_entries_def is_array_index_def is_digit_def js_get_def
      Object_prototype_keys_def)

section \<open>Formatting a schema\<close>

text \<open>
  Claim C8, as stated: formatSchema emits one formatted column per entry in the mapping's
  insertion order. For the schema whose columns were inserted as name, 2024, 7 the result
  lists 7, then 2024, then name: \<^verbatim>\<open>Object.entries\<close> puts the two names that are array
  indices first, in ascending numeric order.
\<close>

theorem formatSchema_order_counterexample:
  "formatSchema
     [(''name'', \<lparr>column_type = ''STRING'', column_description = None\<rparr>),
      (''2024'', \<lparr>column_type = ''INTEGER'', column_description = None\<rparr>),
      (''7'', \<lparr>column_type = ''FLOAT'', column_description = None\<rparr>)]
   = [\<lparr>formatted_name = ''7'', formatted_type = ''FLOAT'',
        formatted_description = Sem_descricao\<rparr>,
      \<lparr>formatted_name = ''2024'', formatted_type = ''INTEGER'',
        formatted_description = Sem_descricao\<rparr>,
      \<lparr>formatted_name = ''name'', formatted_type = ''STRING'',
        formatted_description = Sem_descricao\<rparr>]
   \<and> map formatted_name (formatSchema
        [(''name'', \<lparr>column_type = ''STRING'', column_description = None\<rparr>),
         (''2024'', \<lparr>column_type = ''INTEGER'', column_description = None\<rparr>),
         (''7'', \<lparr>column_type = ''FLOAT'', column_description = None\<rparr>)])
      \<noteq> [''name'', ''2024'', ''7'']"
  by (simp add: formatSchema_def Object_entries_def is_array_index_def is_digit_def decimal_def)

text \<open>
  Claim C8, amended. For every schema mapping, formatSchema emits exactly one formatted
  column per entry, in the order in which \<^verbatim>\<open>Object.entries\<close> enumerates the mapping: the
  entries are those of the mapping, each once; the column names that are array indices come
  first, in ascending numeric order, and the other columns follow in insertion order, so the
  order is the insertion order whenever no column name is an array index. Name and type are
  copied, and the fixed placeholder description is substituted exactly when the source
  description is missing or the empty string; a description that is present and not empty is
  copied. For the schema with the single column col1 of type STRING without description it
  yields the one column col1, STRING, with the placeholder as description.
\<close>

theorem formatSchema_entries:
  "length (formatSchema columns) = length columns
   \<and> mset (Object_entries columns) = mset columns
   \<and> Object_entries columns
       = filter (\<lambda>entry. is_array_index (fst entry)) (Object_entries columns)
         @ filter (\<lambda>entry. \<not> is_array_index (fst entry)) columns
   \<and> sorted (map (\<lambda>entry. decimal (fst entry))
        (filter (\<lambda>entry. is_array_index (fst entry)) (Object_entries columns)))
   \<and> (list_all (\<lambda>entry. \<not> is_array_index (fst entry)) columns \<longrightarrow>
        Object_entries columns = columns
        \<and> map formatted_name (formatSchema columns) = map fst columns)
   \<and> (\<forall>i < length columns.
        formatted_name (formatSchema columns ! i) = fst (Object_entries columns ! i)
        \<and> formatted_type (formatSchema columns ! i)
            = column_type (snd (Object_entries columns ! i))
        \<and> (column_description (snd (Object_entries columns ! i)) = None
             \<or> column_description (snd (Object_entries columns ! i)) = Some []
            \<longrightarrow> formatted_description (formatSchema columns ! i) = Sem_descricao)
        \<and> (\<forall>text. column_description (snd (Object_entries columns ! i)) = Some text
               \<and> text \<noteq> []
            \<longrightarrow> formatted_description (formatSchema columns ! i) = text))
   \<and> formatSchema [(''col1'', \<lparr>column_type = ''STRING'', column_description = None\<rparr>)]
       = [\<lparr>formatted_name = ''col1'', formatted_type = ''STRING'',
           formatted_description = ''Sem descri'' @ [CHR 0xE7, CHR 0xE3] @ ''o''\<rparr>]"
proof -
  have len: "length (formatSchema columns) = length columns"
    by (simp add: formatSchema_def length_Object_entries)
  have plain: "list_all (\<lambda>entry. \<not> is_array_index (fst entry)) columns \<longrightarrow>
        Object_entries columns = columns
        \<and> map formatted_name (formatSchema columns) = map fst columns"
  proof
    assume "list_all (\<lambda>entry. \<not> is_array_index (fst entry)) columns"
    then have same: "Object_entries columns = columns"
      by (rule Object_entries_plain)
    have "map formatted_name (formatSchema columns) = map fst (Object_entries columns)"
      by (simp add: formatSchema_def split_beta)
    with same show "Object_entries columns = columns
        \<and> map formatted_name (formatSchema columns) = map fst columns"
      by simp
  qed
  have each: "\<forall>i < length columns.
        formatted_name (formatSchema columns ! i) = fst (Object_entries columns ! i)
        \<and> formatted_type (formatSchema columns ! i)
            = column_type (snd (Object_entries columns ! i))
        \<and> (column_description (snd (Object_entries columns ! i)) = None
             \<or> column_description (snd (Object_entries columns ! i)) = Some []
            \<longrightarrow> formatted_description (formatSchema columns ! i) = Sem_descricao)
        \<and> (\<forall>text. column_description (snd (Object_entries columns ! i)) = Some text
               \<and> text \<noteq> []
            \<longrightarrow> formatted_description (formatSchema columns ! i) = text)"
    by (auto simp: formatSchema_def split_beta length_Object_entries)
  have example: "formatSchema [(''col1'', \<lparr>column_type = ''STRING'', column_description = None\<rparr>)]
       = [\<lparr>formatted_name = ''col1'', formatted_type = ''STRING'',
           formatted_description = ''Sem descri'' @ [CHR 0xE7, CHR 0xE3] @ ''o''\<rparr>]"
    by (simp add: formatSchema_def Sem_descricao_def Object_entries_def is_array_index_def
        is_digit_def)
  from len mset_Object_entries [of columns] Object_entries_split [of columns]
    sorted_index_entries [of columns] plain each example
  show ?thesis
    by blast
qed

theorem formatSchema_entries_witness:
  "list_all (\<lambda>entry. \<not> is_array_index (fst entry))
     [(''id'', \<lparr>column_type = ''INTEGER'', column_description = Some ''Row id''\<rparr>),
      (''name'', \<lparr>column_type = ''STRING'', column_description = Some ''''\<rparr>),
      (''city'', \<lparr>column_type = ''STRING'', column_description = None\<rparr>)]
   \<and> formatSchema
     [(''id'', \<lparr>column_type = ''INTEGER'', column_description = Some ''Row id''\<rparr>),
      (''name'', \<lparr>column_type = ''STRING'', column_description = Some ''''\<rparr>),
      (''city'', \<lparr>column_type = ''STRING'', column_description = None\<rparr>)]
   = [\<lparr>formatted_name = ''id'', formatted_type = ''INTEGER'', formatted_description = ''Row id''\<rparr>,
      \<lparr>formatted_name = ''name'', formatted_type = ''STRING'',
        formatted_description = Sem_descricao\<rparr>,
      \<lparr>formatted_name = ''city'', formatted_type = ''STRING'',
        formatted_description = Sem_descricao\<rparr>]
   \<and> formatSchema
     [(''name'', \<lparr>column_type = ''STRING'', column_description = Some ''Nome''\<rparr>),
      (''10'', \<lparr>column_type = ''INTEGER'', column_description = Some ''''\<rparr>),
      (''9'', \<lparr>column_type = ''FLOAT'', column_description = None\<rparr>)]
   = [\<lparr>formatted_name = ''9'', formatted_type = ''FLOAT'',
        formatted_description = Sem_descricao\<rparr>,
      \<lparr>formatted_name = ''10'', formatted_type = ''INTEGER'',
        formatted_description = Sem_descricao\<rparr>,
      \<lparr>formatted_name = ''name'', formatted_type = ''STRING'', formatted_description = ''Nome''\<rparr>]"
proof -
  let ?plain =
    "[(''id'', \<lparr>column_type = ''INTEGER'', column_description = Some ''Row id''\<rparr>),
      (''name'', \<lparr>column_type = ''STRING'', column_description = Some ''''\<rparr>),
      (''city'', \<lparr>column_type = ''STRING'', column_description = None\<rparr>)]"
  let ?mixed =
    "[(''name'', \<lparr>column_type = ''STRING'', column_description = Some ''Nome''\<rparr>),
      (''10'', \<lparr>column_type = ''INTEGER'', column_description = Some ''''\<rparr>),
      (''9'', \<lparr>column_type = ''FLOAT'', column_description = None\<rparr>)]"
  have no_index: "list_all (\<lambda>entry. \<not> is_array_index (fst entry)) ?plain"
    by (simp add: is_array_index_def is_digit_def)
  have entries: "Object_entries ?mixed
      = [(''9'', \<lparr>column_type = ''FLOAT'', column_description = None\<rparr>),
         (''10'', \<lparr>column_type = ''INTEGER'', column_description = Some ''''\<rparr>),
         (''name'', \<lparr>column_type = ''STRING'', column_description = Some ''Nome''\<rparr>)]"
    by (simp add: Object_entries_def is_array_index_def is_digit_def decimal_def)
  have plain: "formatSchema ?plain
   = [\<lparr>formatted_name = ''id'', formatted_type = ''INTEGER'', formatted_description = ''Row id''\<rparr>,
      \<lparr>formatted_name = ''name'', formatted_type = ''STRING'',
        formatted_description = Sem_descricao\<rparr>,
      \<lparr>formatted_name = ''city'', formatted_type = ''STRING'',
        formatted_description = Sem_descricao\<rparr>]"
    by (simp add: formatSchema_def Object_entries_plain [OF no_index])
  have mixed: "formatSchema ?mixed
   = [\<lparr>formatted_name = ''9'', formatted_type = ''FLOAT'',
        formatted_description = Sem_descricao\<rparr>,
      \<lparr>formatted_name = ''10'', formatted_type = ''INTEGER'',
        formatted_description = Sem_descricao\<rparr>,
      \<lparr>formatted_name = ''name'', formatted_type = ''STRING'', formatted_description = ''Nome''\<rparr>]"
    by (simp add: formatSchema_def entries)
  from formatSchema_entries [of ?plain] no_index
  have names: "map formatted_name (formatSchema ?plain) = map fst ?plain"
    by blast
  from formatSchema_entries [of ?mixed]
  have count: "length (formatSchema ?mixed) = length ?mixed"
    by blast
  from names count no_index plain mixed show ?thesis
    by simp
qed

section \<open>The query embedded in the Python snippet\<close>

lemma match_keyword_other_start: "c \<notin> set ''Ll'' \<Longrightarrow> match_keyword (c # s) = None"
  by (cases "c # s" rule: match_keyword.cases) auto

lemma match_keyword_other_second: "c2 \<notin> set ''Ii'' \<Longrightarrow> match_keyword (c1 # c2 # s) = None"
  by (cases "c1 # c2 # s" rule: match_keyword.cases) auto

lemma match_LIMIT_other_start: "c \<notin> set ''Ll'' \<Longrightarrow> match_LIMIT (c # s) = None"
  by (simp add: match_LIMIT_def match_keyword_other_start)

lemma match_LIMIT_other_second: "c2 \<notin> set ''Ii'' \<Longrightarrow> match_LIMIT (c1 # c2 # s) = None"
  by (simp add: match_LIMIT_def match_keyword_other_second)

lemma match_LIMIT_in_segment:
  assumes seg: "\<forall>c \<in> set (a # A). \<not> is_whitespace c"
    and next_part: "B = [] \<or> (hd B \<notin> set ''LlIiMmTt''
          \<and> (takeWhile is_whitespace B = []
               \<or> takeWhile is_digit (dropWhile is_whitespace B) = []))"
  shows "match_LIMIT (a # A @ B) = None"
proof (cases "match_keyword (a # A @ B)")
  case None
  then show ?thesis
    by (simp add: match_LIMIT_def)
next
  case (Some rest)
  then obtain c1 c2 c3 c4 c5 where
    whole: "a # A @ B = c1 # c2 # c3 # c4 # c5 # rest"
    and key: "c2 \<in> set ''Ii''" "c3 \<in> set ''Mm''" "c4 \<in> set ''Ii''" "c5 \<in> set ''Tt''"
    by (cases "a # A @ B" rule: match_keyword.cases) (auto split: if_splits)
  have "takeWhile is_whitespace rest = []
      \<or> takeWhile is_digit (dropWhile is_whitespace rest) = []"
  proof (cases "length A < 4")
    case True
    then have "B \<noteq> []" and "hd B \<in> set [c2, c3, c4, c5]"
      using whole by (auto simp: Cons_eq_append_conv append_eq_Cons_conv)
    with key next_part show ?thesis
      by auto
  next
    case False
    show ?thesis
    proof (cases "length A = 4")
      case True
      then have "rest = B"
        using whole by (auto simp: Cons_eq_append_conv append_eq_Cons_conv)
      with next_part show ?thesis
        by auto
    next
      case long: False
      with \<open>\<not> length A < 4\<close> have len: "length A > 4" by simp
      have "rest = drop 5 (a # A @ B)"
        using whole by simp
      with len have r: "rest = drop 4 A @ B"
        by simp
      from len obtain x xs where d: "drop 4 A = x # xs"
        by (cases "drop 4 A") auto
      then have "x \<in> set A"
        by (metis in_set_dropD list.set_intros(1))
      with r d have "rest = x # xs @ B" and "x \<in> set A"
        by simp_all
      with seg show ?thesis
        by simp
    qed
  qed
  with Some show ?thesis
    by (auto simp: match_LIMIT_def Let_def)
qed

lemma replace_LIMIT_segment:
  assumes "\<forall>c \<in> set A. \<not> is_whitespace c"
    and "B = [] \<or> (hd B \<notin> set ''LlIiMmTt''
          \<and> (takeWhile is_whitespace B = []
               \<or> takeWhile is_digit (dropWhile is_whitespace B) = []))"
  shows "replace_LIMIT (A @ B) = A @ replace_LIMIT B"
  using assms(1)
proof (induction A)
  case Nil
  show ?case by simp
next
  case (Cons a A)
  then have "match_LIMIT (a # A @ B) = None"
    using assms(2) by (intro match_LIMIT_in_segment) simp_all
  with Cons show ?case
    by simp
qed

lemma replace_LIMIT_columns:
  assumes "\<forall>c \<in> set cols. \<forall>x \<in> set c. \<not> is_whitespace x"
  shows "replace_LIMIT (join '',\<newline>  '' cols @ ''\<newline>FROM `'' @ rest)
         = join '',\<newline>  '' cols @ ''\<newline>FROM `'' @ replace_LIMIT rest"
proof (cases "cols = []")
  case True
  then show ?thesis
    by (simp add: match_LIMIT_other_start)
next
  case False
  then show ?thesis
    using assms
  proof (induction cols rule: list_nonempty_induct)
    case (single c)
    then have "replace_LIMIT (c @ ''\<newline>FROM `'' @ rest) = c @ replace_LIMIT (''\<newline>FROM `'' @ rest)"
      by (intro replace_LIMIT_segment) (simp_all add: is_whitespace_def is_digit_def)
    then show ?case
      by (simp add: match_LIMIT_other_start)
  next
    case (cons c cols)
    then obtain d ds where cols: "cols = d # ds"
      by (cases cols) auto
    have "replace_LIMIT (c @ '',\<newline>  '' @ join '',\<newline>  '' cols @ ''\<newline>FROM `'' @ rest)
        = c @ replace_LIMIT ('',\<newline>  '' @ join '',\<newline>  '' cols @ ''\<newline>FROM `'' @ rest)"
      using cons.prems by (intro replace_LIMIT_segment) (simp_all add: is_whitespace_def)
    also have "\<dots> = c @ '',\<newline>  '' @ replace_LIMIT (join '',\<newline>  '' cols @ ''\<newline>FROM `'' @ rest)"
      by (simp add: match_LIMIT_other_start)
    also have "\<dots> = c @ '',\<newline>  '' @ join '',\<newline>  '' cols @ ''\<newline>FROM `'' @ replace_LIMIT rest"
      using cons by simp
    finally show ?case
      by (simp add: cols)
  qed
qed

lemma replace_LIMIT_reference:
  assumes "\<forall>x \<in> set projectKey. \<not> is_whitespace x"
    and "\<forall>x \<in> set datasetName. \<not> is_whitespace x"
    and "\<forall>x \<in> set tableName. \<not> is_whitespace x"
  shows "replace_LIMIT (projectKey @ ''.'' @ datasetName @ ''.'' @ tableName @ ''`\<newline>LIMIT 100'')
         = projectKey @ ''.'' @ datasetName @ ''.'' @ tableName @ ''`\<newline>LIMIT @limit''"
proof -
  have clause: "replace_LIMIT ''`\<newline>LIMIT 100'' = ''`\<newline>LIMIT @limit''"
    by (simp add: match_LIMIT_other_start match_LIMIT_def is_whitespace_def is_digit_def)
  have "replace_LIMIT (tableName @ ''`\<newline>LIMIT 100'') = tableName @ ''`\<newline>LIMIT @limit''"
    using assms(3) clause by (simp add: replace_LIMIT_segment is_whitespace_def)
  then have "replace_LIMIT (datasetName @ ''.'' @ tableName @ ''`\<newline>LIMIT 100'')
      = datasetName @ ''.'' @ tableName @ ''`\<newline>LIMIT @limit''"
    using assms(2) by (simp add: replace_LIMIT_segment is_whitespace_def match_LIMIT_other_start)
  then show ?thesis
    using assms(1) by (simp add: replace_LIMIT_segment is_whitespace_def match_LIMIT_other_start)
qed

text \<open>
  When no project key, dataset name, table name or selected column holds a white-space
  character, the leftmost match is the final clause of the query, and the replacement turns
  exactly that clause into the parameter.
\<close>

lemma replace_LIMIT_generateQuery:
  assumes "\<forall>x \<in> set projectKey. \<not> is_whitespace x"
    and "\<forall>x \<in> set datasetName. \<not> is_whitespace x"
    and "\<forall>x \<in> set tableName. \<not> is_whitespace x"
    and "\<forall>cols. selectedColumns = Some cols \<longrightarrow> (\<forall>c \<in> set cols. \<forall>x \<in> set c. \<not> is_whitespace x)"
  shows "\<exists>body. generateQuery projectKey datasetName tableName selectedColumns = body @ ''LIMIT 100''
           \<and> replace_LIMIT (generateQuery projectKey datasetName tableName selectedColumns)
               = body @ ''LIMIT @limit''"
proof -
  let ?ref = "projectKey @ ''.'' @ datasetName @ ''.'' @ tableName"
  have ref: "replace_LIMIT (?ref @ ''`\<newline>LIMIT 100'') = ?ref @ ''`\<newline>LIMIT @limit''"
    using replace_LIMIT_reference [OF assms(1-3)] by simp
  have star: "replace_LIMIT (''SELECT\<newline>  *\<newline>FROM `'' @ ?ref @ ''`\<newline>LIMIT 100'')
      = ''SELECT\<newline>  *\<newline>FROM `'' @ ?ref @ ''`\<newline>LIMIT @limit''"
    using ref by (simp add: match_LIMIT_other_start match_LIMIT_other_second)
  show ?thesis
  proof (cases "selectedColumns = None \<or> selectedColumns = Some []")
    case True
    then have "generateQuery projectKey datasetName tableName selectedColumns
        = (''SELECT\<newline>  *\<newline>FROM `'' @ ?ref @ ''`\<newline>'') @ ''LIMIT 100''"
      by (auto simp: generateQuery_def)
    moreover from this star
    have "replace_LIMIT (generateQuery projectKey datasetName tableName selectedColumns)
        = (''SELECT\<newline>  *\<newline>FROM `'' @ ?ref @ ''`\<newline>'') @ ''LIMIT @limit''"
      by simp
    ultimately show ?thesis
      by blast
  next
    case False
    then obtain cols where sel: "selectedColumns = Some cols" and ne: "cols \<noteq> []"
      by (cases selectedColumns) auto
    let ?kept = "filterNestedColumns cols"
    have kept: "\<forall>c \<in> set ?kept. \<forall>x \<in> set c. \<not> is_whitespace x"
      using assms(4) sel by (auto simp: filterNestedColumns_def)
    have q: "generateQuery projectKey datasetName tableName selectedColumns
        = (''SELECT\<newline>  '' @ join '',\<newline>  '' ?kept @ ''\<newline>FROM `'' @ ?ref @ ''`\<newline>'') @ ''LIMIT 100''"
      using generateQuery_filter [OF ne, of projectKey datasetName tableName] sel by simp
    have "replace_LIMIT (''SELECT\<newline>  '' @ join '',\<newline>  '' ?kept @ ''\<newline>FROM `'' @ ?ref @ ''`\<newline>LIMIT 100'')
        = ''SELECT\<newline>  '' @ replace_LIMIT (join '',\<newline>  '' ?kept @ ''\<newline>FROM `'' @ ?ref @ ''`\<newline>LIMIT 100'')"
      by (simp add: match_LIMIT_other_start match_LIMIT_other_second)
    also have "\<dots> = ''SELECT\<newline>  '' @ join '',\<newline>  '' ?kept @ ''\<newline>FROM `''
        @ replace_LIMIT (?ref @ ''`\<newline>LIMIT 100'')"
      using replace_LIMIT_columns [OF kept, of "?ref @ ''`\<newline>LIMIT 100''"] by simp
    finally have "replace_LIMIT (generateQuery projectKey datasetName tableName selectedColumns)
        = (''SELECT\<newline>  '' @ join '',\<newline>  '' ?kept @ ''\<newline>FROM `'' @ ?ref @ ''`\<newline>'') @ ''LIMIT @limit''"
      using q ref by simp
    with q show ?thesis
      by blast
  qed
qed

lemma generatePythonRequest_embeds:
  "sublist (join ''\<newline>'' (map (\<lambda>line. ''    '' @ line)
              (split (CHR ''\<newline>'') (replace_LIMIT
                 (generateQuery projectKey datasetName tableName selectedColumns)))))
     (generatePythonRequest projectKey datasetName tableName selectedColumns)"
  unfolding generatePythonRequest_def Let_def by (rule sublist_appendI)

text \<open>
  Claim C7 says that the snippet embeds the query of generateQuery with its LIMIT clause
  replaced by the parameter, so that the fixed limit does not survive in the embedded text.
  Evaluated on the selection of the one column named limit 5: the replacement rewrites the
  column, the first place where the expression matches, and the embedded query still ends
  with the fixed LIMIT 100.
\<close>

theorem generatePythonRequest_limit_survives:
  "generateQuery ''p'' ''d'' ''t'' (Some [''limit 5''])
     = ''SELECT\<newline>  limit 5\<newline>FROM `p.d.t`\<newline>LIMIT 100''
   \<and> replace_LIMIT (generateQuery ''p'' ''d'' ''t'' (Some [''limit 5'']))
     = ''SELECT\<newline>  LIMIT @limit\<newline>FROM `p.d.t`\<newline>LIMIT 100''
   \<and> sublist ''    SELECT\<newline>      LIMIT @limit\<newline>    FROM `p.d.t`\<newline>    LIMIT 100''
        (generatePythonRequest ''p'' ''d'' ''t'' (Some [''limit 5'']))"
proof -
  have query: "generateQuery ''p'' ''d'' ''t'' (Some [''limit 5''])
     = ''SELECT\<newline>  limit 5\<newline>FROM `p.d.t`\<newline>LIMIT 100''"
    by code_simp
  have replaced: "replace_LIMIT ''SELECT\<newline>  limit 5\<newline>FROM `p.d.t`\<newline>LIMIT 100''
     = ''SELECT\<newline>  LIMIT @limit\<newline>FROM `p.d.t`\<newline>LIMIT 100''"
    by code_simp
  have indented: "join ''\<newline>'' (map (\<lambda>line. ''    '' @ line)
        (split (CHR ''\<newline>'') ''SELECT\<newline>  LIMIT @limit\<newline>FROM `p.d.t`\<newline>LIMIT 100''))
     = ''    SELECT\<newline>      LIMIT @limit\<newline>    FROM `p.d.t`\<newline>    LIMIT 100''"
    by code_simp
  have "sublist ''    SELECT\<newline>      LIMIT @limit\<newline>    FROM `p.d.t`\<newline>    LIMIT 100''
        (generatePythonRequest ''p'' ''d'' ''t'' (Some [''limit 5'']))"
    using generatePythonRequest_embeds [of "''p''" "''d''" "''t''" "Some [''limit 5'']"]
    by (simp only: query replaced indented)
  with query replaced show ?thesis
    by (simp only: simp_thms)
qed

end
